theory Spec2Isabelle
  imports Main "HOL-Library.Word" "HOL-Library.Multiset"
begin

section \<open>Go values, reflected types and panics\<close>

text \<open>
  The library stores every row in a struct that it builds at run time with package
  \<^verbatim>\<open>reflect\<close>, and reads it back through \<^verbatim>\<open>any\<close>. The model covers the dynamic
  values the code can meet: \<^verbatim>\<open>nil\<close>, the values a \<^verbatim>\<open>database/sql\<close> driver hands
  to \<^verbatim>\<open>Scan\<close> (\<^verbatim>\<open>int64\<close>, \<^verbatim>\<open>float64\<close>, \<^verbatim>\<open>bool\<close>, \<^verbatim>\<open>[]byte\<close>, \<^verbatim>\<open>string\<close>,
  \<^verbatim>\<open>time.Time\<close>), \<^verbatim>\<open>int\<close> (the result of \<^verbatim>\<open>strconv.Atoi\<close>, and what the tests put
  into rows) and the structs made by \<^verbatim>\<open>reflect.StructOf\<close>.

  \<^verbatim>\<open>int\<close> is taken to be 64 bits wide, as on every 64-bit platform. \<^verbatim>\<open>float64\<close> is the
  type parameter \<open>'f\<close>: its arithmetic is not modelled, and the few operations the code
  uses on it are fields of the record \<open>runtime\<close> below. A \<^verbatim>\<open>time.Time\<close> is opaque.
  Strings are byte strings; column labels and paths are read as ASCII (on bytes above
  127 Go would consult the Unicode tables, which are not modelled: such bytes are left
  unchanged by \<open>Title\<close> and are not letters for \<open>isValidFieldName\<close>).
\<close>

type_synonym go_int = "64 word"

text \<open>
  A \<^verbatim>\<open>reflect.Type\<close> is an interface value: \<open>TNil\<close> is the nil one (what
  \<^verbatim>\<open>reflect.TypeOf(nil)\<close> and a lookup of a missing key in a map of types give).
\<close>

datatype rtype =
    TNil | TInt | TInt64 | TFloat64 | TBool | TString | TBytes | TTime
  | TStruct "(string \<times> rtype) list"

datatype 'f val =
    VNil
  | VInt go_int
  | VInt64 "64 word"
  | VFloat64 'f
  | VBool bool
  | VString string
  | VBytes string
  | VTime nat
  | VStruct "(string \<times> 'f val) list"

text \<open>
  A run-time panic aborts the call: nothing is returned. The constructor names the
  check that failed (all of them are checks of package \<^verbatim>\<open>reflect\<close> or of the Go
  run time, none is written in the library itself).
\<close>

datatype panic =
    NoName            \<comment> \<open>\<^verbatim>\<open>reflect.StructOf: field i has no name\<close>\<close>
  | InvalidName       \<comment> \<open>\<^verbatim>\<open>reflect.StructOf: field i has invalid name\<close>\<close>
  | NoType            \<comment> \<open>\<^verbatim>\<open>reflect.StructOf: field i has no type\<close>\<close>
  | Unexported        \<comment> \<open>\<^verbatim>\<open>reflect.StructOf: field "x" is unexported but missing PkgPath\<close>\<close>
  | DuplicateField    \<comment> \<open>\<^verbatim>\<open>reflect.StructOf: duplicate field\<close>\<close>
  | SetZeroValue      \<comment> \<open>\<^verbatim>\<open>reflect: call of reflect.Value.Set on zero Value\<close>\<close>
  | NotAssignable     \<comment> \<open>\<^verbatim>\<open>reflect.Set: value of type T is not assignable to type U\<close>\<close>
  | NotStruct         \<comment> \<open>\<^verbatim>\<open>reflect: call of reflect.Value.FieldByName on T Value\<close>\<close>
  | NilType           \<comment> \<open>method call on a nil \<^verbatim>\<open>reflect.Type\<close>\<close>
  | IndexOutOfRange   \<comment> \<open>\<^verbatim>\<open>index out of range\<close>\<close>

datatype 'a outcome = Panic panic | Return 'a

text \<open>
  The operations on \<^verbatim>\<open>float64\<close> that the code uses, and \<^verbatim>\<open>fmt.Sprintf("%v", v)\<close>.
  \<open>ParseFloat s\<close> is \<open>Some f\<close> exactly when \<^verbatim>\<open>strconv.ParseFloat(s, 64)\<close> returns
  \<open>f\<close> with a nil error. Every definition and theorem below holds for any such record.
\<close>

record 'f runtime =
  ParseFloat :: "string \<Rightarrow> 'f option"
  float64_of_int :: "go_int \<Rightarrow> 'f"      \<comment> \<open>the conversion \<^verbatim>\<open>float64(v)\<close>\<close>
  int_of_float64 :: "'f \<Rightarrow> go_int"      \<comment> \<open>the conversion \<^verbatim>\<open>int(v)\<close>\<close>
  Sprintf_v :: "'f val \<Rightarrow> string"       \<comment> \<open>\<^verbatim>\<open>fmt.Sprintf("%v", v)\<close>\<close>

section \<open>Library functions of Go used by the code\<close>

text \<open>\<^verbatim>\<open>strings.Split(s, ".")\<close>: cuts at every dot; the result is never empty.\<close>

fun Split :: "string \<Rightarrow> string list" where
  "Split [] = [[]]"
| "Split (c # cs) =
     (if c = CHR ''.'' then [] # Split cs
      else (case Split cs of [] \<Rightarrow> [[c]] | p # ps \<Rightarrow> (c # p) # ps))"

text \<open>
  \<^verbatim>\<open>strings.Title\<close>: every letter that begins a word is mapped to upper case; a word
  begins at the start and after every separator, and ASCII letters, digits and the
  underscore are not separators.
\<close>

definition isSeparator :: "char \<Rightarrow> bool" where
  "isSeparator r =
     (let n = (of_char r :: nat) in
      if n \<le> 127 then
        (if 48 \<le> n \<and> n \<le> 57 then False
         else if 97 \<le> n \<and> n \<le> 122 then False
         else if 65 \<le> n \<and> n \<le> 90 then False
         else if n = 95 then False
         else True)
      else False)"

definition ToTitle :: "char \<Rightarrow> char" where
  "ToTitle r =
     (case map_of (zip ''abcdefghijklmnopqrstuvwxyz'' ''ABCDEFGHIJKLMNOPQRSTUVWXYZ'') r of
        Some u \<Rightarrow> u
      | None \<Rightarrow> r)"

fun Title_from :: "char \<Rightarrow> string \<Rightarrow> string" where
  "Title_from prev [] = []"
| "Title_from prev (r # rs) =
     (if isSeparator prev then ToTitle r else r) # Title_from r rs"

definition Title :: "string \<Rightarrow> string" where
  "Title s = Title_from (CHR '' '') s"

text \<open>
  \<^verbatim>\<open>strconv.Atoi\<close>: an optional sign, then one or more decimal digits, and the value
  must fit into an \<^verbatim>\<open>int\<close>; \<open>None\<close> stands for a non-nil error.
\<close>

definition digit_of :: "char \<Rightarrow> int option" where
  "digit_of ch =
     (let n = (of_char ch :: int) in if 48 \<le> n \<and> n \<le> 57 then Some (n - 48) else None)"

fun digits_from :: "int \<Rightarrow> string \<Rightarrow> int option" where
  "digits_from n [] = Some n"
| "digits_from n (ch # s) =
     (case digit_of ch of None \<Rightarrow> None | Some d \<Rightarrow> digits_from (n * 10 + d) s)"

definition Atoi :: "string \<Rightarrow> go_int option" where
  "Atoi s =
     (case s of
        [] \<Rightarrow> None
      | c # cs \<Rightarrow>
          (let neg = (c = CHR ''-'');
               ds = (if c = CHR ''-'' \<or> c = CHR ''+'' then cs else s)
           in if ds = [] then None
              else (case digits_from 0 ds of
                      None \<Rightarrow> None
                    | Some n \<Rightarrow>
                        if neg then (if n \<le> 2 ^ 63 then Some (word_of_int (- n)) else None)
                        else (if n < 2 ^ 63 then Some (word_of_int n) else None))))"

text \<open>\<^verbatim>\<open>strconv.ParseBool\<close>: exactly these twelve spellings are accepted.\<close>

definition ParseBool :: "string \<Rightarrow> bool option" where
  "ParseBool str =
     (if str \<in> set [''1'', ''t'', ''T'', ''TRUE'', ''true'', ''True''] then Some True
      else if str \<in> set [''0'', ''f'', ''F'', ''FALSE'', ''false'', ''False''] then Some False
      else None)"

text \<open>
  \<^verbatim>\<open>reflect.Value.FieldByName\<close>: the receiver must be of kind struct, otherwise the call
  panics; on a struct the result is the field of that name, or the invalid value
  (\<open>None\<close>) when there is none. A \<^verbatim>\<open>time.Time\<close> is a struct without exported fields,
  and no name produced by \<open>Title\<close> begins with a lower-case letter, so the lookup
  finds nothing there. The value held by a nil interface is the invalid value, of
  kind \<^verbatim>\<open>Invalid\<close>.
\<close>

fun FieldByName :: "'f val \<Rightarrow> string \<Rightarrow> 'f val option outcome" where
  "FieldByName (VStruct fs) name = Return (map_of fs name)"
| "FieldByName (VTime t) name = Return None"
| "FieldByName v name = Panic NotStruct"

section \<open>The accessors of \<^verbatim>\<open>DBResult\<close>\<close>

record 'f DBResult =
  dr_value :: "'f val"
  dr_typ :: rtype

text \<open>\<^verbatim>\<open>New\<close> returns an empty \<^verbatim>\<open>DBResult\<close>: both fields nil.\<close>

definition New :: "'f DBResult" where
  "New = \<lparr>dr_value = VNil, dr_typ = TNil\<rparr>"

text \<open>
  The loop of \<^verbatim>\<open>Get\<close> over the parts of the path. \<^verbatim>\<open>val.Interface()\<close> of a field is
  its value; the result \<^verbatim>\<open>nil\<close> is \<open>VNil\<close>.
\<close>

fun Get_parts :: "'f val \<Rightarrow> string list \<Rightarrow> 'f val outcome" where
  "Get_parts v [] = Return v"
| "Get_parts v (part # parts) =
     (case FieldByName v (Title part) of
        Panic p \<Rightarrow> Panic p
      | Return None \<Rightarrow> Return VNil
      | Return (Some field) \<Rightarrow> Get_parts field parts)"

definition Get :: "'f DBResult \<Rightarrow> string \<Rightarrow> 'f val outcome" where
  "Get dr fieldName = Get_parts (dr_value dr) (Split fieldName)"

definition GetString :: "'f runtime \<Rightarrow> 'f DBResult \<Rightarrow> string \<Rightarrow> string outcome" where
  "GetString rt dr fieldName =
     (case Get dr fieldName of
        Panic p \<Rightarrow> Panic p
      | Return v \<Rightarrow>
          (case v of
             VNil \<Rightarrow> Return ''''
           | VString str \<Rightarrow> Return str
           | _ \<Rightarrow> Return (Sprintf_v rt v)))"

definition GetInt :: "'f runtime \<Rightarrow> 'f DBResult \<Rightarrow> string \<Rightarrow> go_int outcome" where
  "GetInt rt dr fieldName =
     (case Get dr fieldName of
        Panic p \<Rightarrow> Panic p
      | Return v \<Rightarrow>
          (case v of
             VNil \<Rightarrow> Return 0
           | VInt i \<Rightarrow> Return i
           | VInt64 i \<Rightarrow> Return i
           | VFloat64 f \<Rightarrow> Return (int_of_float64 rt f)
           | VString s \<Rightarrow> (case Atoi s of Some i \<Rightarrow> Return i | None \<Rightarrow> Return 0)
           | _ \<Rightarrow> Return 0))"

definition GetFloat :: "'f runtime \<Rightarrow> 'f DBResult \<Rightarrow> string \<Rightarrow> 'f outcome" where
  "GetFloat rt dr fieldName =
     (case Get dr fieldName of
        Panic p \<Rightarrow> Panic p
      | Return v \<Rightarrow>
          (case v of
             VNil \<Rightarrow> Return (float64_of_int rt 0)
           | VFloat64 f \<Rightarrow> Return f
           | VInt i \<Rightarrow> Return (float64_of_int rt i)
           | VInt64 i \<Rightarrow> Return (float64_of_int rt i)
           | VString s \<Rightarrow>
               (case ParseFloat rt s of Some f \<Rightarrow> Return f | None \<Rightarrow> Return (float64_of_int rt 0))
           | _ \<Rightarrow> Return (float64_of_int rt 0)))"

definition GetBool :: "'f DBResult \<Rightarrow> string \<Rightarrow> bool outcome" where
  "GetBool dr fieldName =
     (case Get dr fieldName of
        Panic p \<Rightarrow> Panic p
      | Return v \<Rightarrow>
          (case v of
             VNil \<Rightarrow> Return False
           | VBool b \<Rightarrow> Return b
           | VInt i \<Rightarrow> Return (i \<noteq> 0)
           | VString s \<Rightarrow> (case ParseBool s of Some b \<Rightarrow> Return b | None \<Rightarrow> Return False)
           | _ \<Rightarrow> Return False))"

section \<open>Building the struct: \<^verbatim>\<open>reflect.StructOf\<close>, zero values, \<^verbatim>\<open>Set\<close>\<close>

text \<open>\<^verbatim>\<open>reflect.TypeOf\<close>: the dynamic type of a value.\<close>

fun TypeOf :: "'f val \<Rightarrow> rtype" where
  "TypeOf VNil = TNil"
| "TypeOf (VInt i) = TInt"
| "TypeOf (VInt64 i) = TInt64"
| "TypeOf (VFloat64 f) = TFloat64"
| "TypeOf (VBool b) = TBool"
| "TypeOf (VString s) = TString"
| "TypeOf (VBytes s) = TBytes"
| "TypeOf (VTime t) = TTime"
| "TypeOf (VStruct fs) = TStruct (map (\<lambda>f. (fst f, TypeOf (snd f))) fs)"

text \<open>
  The zero value of a type, which \<^verbatim>\<open>reflect.New(structType).Elem()\<close> holds in every
  field. A struct value lists its fields with their current values; the static type of
  a field is the type of the value it holds (no field of these structs is of an
  interface type), so \<open>TypeOf\<close> of the current value is the type \<^verbatim>\<open>Set\<close> checks.
  \<^verbatim>\<open>reflect.StructOf\<close> admits no two fields of one name, so the first field of a name
  (\<open>map_of\<close>) is the field \<^verbatim>\<open>FieldByName\<close> finds.
\<close>

fun Zero :: "'f runtime \<Rightarrow> rtype \<Rightarrow> 'f val" where
  "Zero rt TNil = VNil"
| "Zero rt TInt = VInt 0"
| "Zero rt TInt64 = VInt64 0"
| "Zero rt TFloat64 = VFloat64 (float64_of_int rt 0)"
| "Zero rt TBool = VBool False"
| "Zero rt TString = VString ''''"
| "Zero rt TBytes = VBytes ''''"
| "Zero rt TTime = VTime 0"
| "Zero rt (TStruct fs) = VStruct (map (\<lambda>f. (fst f, Zero rt (snd f))) fs)"

text \<open>
  \<^verbatim>\<open>reflect.StructOf\<close> checks the fields in order and panics at the first one that has
  an empty name, a name that is not an identifier, no type, a name that begins with a
  lower-case letter or an underscore (the fields carry no \<^verbatim>\<open>PkgPath\<close>), or the name
  of an earlier field.
\<close>

definition isLetter :: "char \<Rightarrow> bool" where
  "isLetter c = (c \<in> set ''abcdefghijklmnopqrstuvwxyzABCDEFGHIJKLMNOPQRSTUVWXYZ_'')"

definition isDigit :: "char \<Rightarrow> bool" where
  "isDigit c = (c \<in> set ''0123456789'')"

definition isValidFieldName :: "string \<Rightarrow> bool" where
  "isValidFieldName fieldName =
     (case fieldName of
        [] \<Rightarrow> False
      | c # cs \<Rightarrow> isLetter c \<and> list_all (\<lambda>c. isLetter c \<or> isDigit c) cs)"

definition unexported_start :: "char \<Rightarrow> bool" where
  "unexported_start c = (c \<in> set ''abcdefghijklmnopqrstuvwxyz_'')"

fun StructOf_check :: "string list \<Rightarrow> (string \<times> rtype) list \<Rightarrow> panic option" where
  "StructOf_check seen [] = None"
| "StructOf_check seen (field # rest) =
     (case fst field of
        [] \<Rightarrow> Some NoName
      | c # cs \<Rightarrow>
          if \<not> isValidFieldName (fst field) then Some InvalidName
          else if snd field = TNil then Some NoType
          else if unexported_start c then Some Unexported
          else if fst field \<in> set seen then Some DuplicateField
          else StructOf_check (fst field # seen) rest)"

definition StructOf :: "(string \<times> rtype) list \<Rightarrow> rtype outcome" where
  "StructOf fs =
     (case StructOf_check [] fs of Some p \<Rightarrow> Panic p | None \<Rightarrow> Return (TStruct fs))"

text \<open>
  \<^verbatim>\<open>field.Set(reflect.ValueOf(val))\<close> on a settable field that holds \<open>cur\<close>:
  \<^verbatim>\<open>reflect.ValueOf(nil)\<close> is the zero \<^verbatim>\<open>Value\<close>, which \<^verbatim>\<open>Set\<close> refuses; any other
  value must be of the field's type. The result is the field's new content.
\<close>

definition Set_field :: "'f val \<Rightarrow> 'f val \<Rightarrow> 'f val outcome" where
  "Set_field cur x =
     (if x = VNil then Panic SetZeroValue
      else if TypeOf x = TypeOf cur then Return x
      else Panic NotAssignable)"

text \<open>The struct after the field \<open>name\<close> has received the content \<open>x\<close>.\<close>

fun store :: "string \<Rightarrow> 'f val \<Rightarrow> 'f val \<Rightarrow> 'f val" where
  "store name x (VStruct fs) = VStruct (map (\<lambda>f. if fst f = name then (name, x) else f) fs)"
| "store name x v = v"

section \<open>The mapping: \<^verbatim>\<open>createStruct\<close> and \<^verbatim>\<open>QueryToStruct\<close>\<close>

record FieldInfo =
  Name :: string
  Type :: rtype

text \<open>
  The errors \<^verbatim>\<open>QueryToStruct\<close> returns: each one wraps (\<^verbatim>\<open>fmt.Errorf\<close> with
  \<^verbatim>\<open>%w\<close>) the error of the data source under a message of its own.
\<close>

datatype error =
    QueryError string      \<comment> \<open>\<^verbatim>\<open>db.Query\<close> failed\<close>
  | ColumnsError string    \<comment> \<open>\<^verbatim>\<open>rows.Columns\<close> failed\<close>
  | ScanError string       \<comment> \<open>\<^verbatim>\<open>rows.Scan\<close> failed\<close>
  | RowsError string       \<comment> \<open>\<^verbatim>\<open>rows.Err\<close> after the last row\<close>

text \<open>
  \<^verbatim>\<open>fieldTypes\<close> and \<^verbatim>\<open>fieldMap\<close> are Go maps. Go does not fix the order in which
  \<^verbatim>\<open>range\<close> visits the keys of a map, and \<^verbatim>\<open>createStruct\<close> ranges over three maps.
  The model takes the three orders as an argument: each loop visits the keys of its
  map in the order of the list (a key that is not in the map is not visited).
  \<open>order_ok\<close> says that each list holds every key of its map once, which is what Go
  guarantees; \<^verbatim>\<open>parentStructs\<close> has the keys of \<^verbatim>\<open>fieldMap\<close>.
\<close>

record order =
  range_fieldMap :: "string list"
  range_fieldTypes :: "string list"
  range_parentStructs :: "string list"

definition order_ok :: "order \<Rightarrow> (string \<rightharpoonup> rtype) \<Rightarrow> (string \<rightharpoonup> FieldInfo list) \<Rightarrow> bool" where
  "order_ok ord fieldTypes fieldMap =
     (distinct (range_fieldMap ord) \<and> set (range_fieldMap ord) = dom fieldMap \<and>
      distinct (range_fieldTypes ord) \<and> set (range_fieldTypes ord) = dom fieldTypes \<and>
      distinct (range_parentStructs ord) \<and> set (range_parentStructs ord) = dom fieldMap)"

text \<open>The first loop of \<^verbatim>\<open>createStruct\<close>: one struct type for each parent.\<close>

fun parentStructs_of ::
  "(string \<rightharpoonup> FieldInfo list) \<Rightarrow> string list \<Rightarrow> (string \<rightharpoonup> rtype) \<Rightarrow> (string \<rightharpoonup> rtype) outcome"
where
  "parentStructs_of fieldMap [] parentStructs = Return parentStructs"
| "parentStructs_of fieldMap (parent # ks) parentStructs =
     (case fieldMap parent of
        None \<Rightarrow> parentStructs_of fieldMap ks parentStructs
      | Some fs \<Rightarrow>
          (case StructOf (map (\<lambda>field. (Title (Name field), Type field)) fs) of
             Panic p \<Rightarrow> Panic p
           | Return t \<Rightarrow> parentStructs_of fieldMap ks (parentStructs(parent \<mapsto> t))))"

text \<open>The second and third loop: the fields of the parent struct.\<close>

definition structFields_of ::
  "order \<Rightarrow> (string \<rightharpoonup> rtype) \<Rightarrow> (string \<rightharpoonup> rtype) \<Rightarrow> (string \<times> rtype) list"
where
  "structFields_of ord fieldTypes parentStructs =
     List.map_filter (\<lambda>col. map_option (\<lambda>t. (Title col, t)) (fieldTypes col))
       (range_fieldTypes ord) @
     List.map_filter (\<lambda>parent. map_option (\<lambda>t. (Title parent, t)) (parentStructs parent))
       (range_parentStructs ord)"

text \<open>
  The conversion of a byte array (lines 213 to 246). Where the parse fails, \<^verbatim>\<open>val\<close>
  is left as it is: the byte array.
\<close>

definition convert ::
  "'f runtime \<Rightarrow> (string \<rightharpoonup> rtype) \<Rightarrow> (string \<rightharpoonup> FieldInfo list) \<Rightarrow> string \<Rightarrow> 'f val \<Rightarrow> 'f val outcome"
where
  "convert rt fieldTypes fieldMap col val =
     (case val of
        VBytes str \<Rightarrow>
          (let parts = Split col;
               fieldType0 = (case fieldTypes col of None \<Rightarrow> TNil | Some t \<Rightarrow> t);
               fieldType =
                 (if length parts > 1 then
                    (case find (\<lambda>field. Name field = parts ! 1)
                            (case fieldMap (parts ! 0) of None \<Rightarrow> [] | Some fs \<Rightarrow> fs) of
                       None \<Rightarrow> fieldType0
                     | Some field \<Rightarrow> Type field)
                  else fieldType0)
           in case fieldType of
                TNil \<Rightarrow> Panic NilType
              | TInt \<Rightarrow> Return (case Atoi str of Some num \<Rightarrow> VInt num | None \<Rightarrow> val)
              | TFloat64 \<Rightarrow>
                  Return (case ParseFloat rt str of Some num \<Rightarrow> VFloat64 num | None \<Rightarrow> val)
              | TBool \<Rightarrow> Return (case ParseBool str of Some b \<Rightarrow> VBool b | None \<Rightarrow> val)
              | _ \<Rightarrow> Return (VString str))
      | _ \<Rightarrow> Return val)"

text \<open>
  The assignment (lines 248 to 267). Every field of the struct is exported and the
  struct is addressable, so \<^verbatim>\<open>CanSet\<close> holds for every valid field.
  \<^verbatim>\<open>parentField.FieldByName\<close> panics when \<^verbatim>\<open>parentField\<close> is the invalid value.
\<close>

definition assign :: "string \<Rightarrow> 'f val \<Rightarrow> 'f val \<Rightarrow> 'f val outcome" where
  "assign col val structValue =
     (let parts = Split col in
      if length parts > 1 then
        (let parent = parts ! 0; child = parts ! 1 in
         case FieldByName structValue (Title parent) of
           Panic p \<Rightarrow> Panic p
         | Return None \<Rightarrow> Panic NotStruct
         | Return (Some parentField) \<Rightarrow>
             (case FieldByName parentField (Title child) of
                Panic p \<Rightarrow> Panic p
              | Return None \<Rightarrow> Return structValue
              | Return (Some childField) \<Rightarrow>
                  (case Set_field childField val of
                     Panic p \<Rightarrow> Panic p
                   | Return x \<Rightarrow>
                       Return (store (Title parent) (store (Title child) x parentField)
                                 structValue))))
      else
        (case FieldByName structValue (Title col) of
           Panic p \<Rightarrow> Panic p
         | Return None \<Rightarrow> Return structValue
         | Return (Some field) \<Rightarrow>
             (case Set_field field val of
                Panic p \<Rightarrow> Panic p
              | Return x \<Rightarrow> Return (store (Title col) x structValue))))"

text \<open>The loop over the columns (lines 208 to 268), \<open>i\<close> being the index.\<close>

fun place ::
  "'f runtime \<Rightarrow> (string \<rightharpoonup> rtype) \<Rightarrow> (string \<rightharpoonup> FieldInfo list) \<Rightarrow> 'f val list \<Rightarrow>
   nat \<Rightarrow> string list \<Rightarrow> 'f val \<Rightarrow> 'f val outcome"
where
  "place rt fieldTypes fieldMap vals i [] structValue = Return structValue"
| "place rt fieldTypes fieldMap vals i (col # cols) structValue =
     (if i < length vals then
        (case convert rt fieldTypes fieldMap col (vals ! i) of
           Panic p \<Rightarrow> Panic p
         | Return val \<Rightarrow>
             (case assign col val structValue of
                Panic p \<Rightarrow> Panic p
              | Return structValue' \<Rightarrow>
                  place rt fieldTypes fieldMap vals (i + 1) cols structValue'))
      else Panic IndexOutOfRange)"

definition createStruct ::
  "order \<Rightarrow> 'f runtime \<Rightarrow> string list \<Rightarrow> 'f val list \<Rightarrow> (string \<rightharpoonup> rtype) \<Rightarrow>
   (string \<rightharpoonup> FieldInfo list) \<Rightarrow> ('f DBResult \<times> error option) outcome"
where
  "createStruct ord rt columns vals fieldTypes fieldMap =
     (case parentStructs_of fieldMap (range_fieldMap ord) Map.empty of
        Panic p \<Rightarrow> Panic p
      | Return parentStructs \<Rightarrow>
          (case StructOf (structFields_of ord fieldTypes parentStructs) of
             Panic p \<Rightarrow> Panic p
           | Return structType \<Rightarrow>
               (case place rt fieldTypes fieldMap vals 0 columns (Zero rt structType) of
                  Panic p \<Rightarrow> Panic p
                | Return structValue \<Rightarrow>
                    Return (\<lparr>dr_value = structValue, dr_typ = structType\<rparr>, None))))"

text \<open>
  The data source, as far as \<^verbatim>\<open>QueryToStruct\<close> sees it. \<^verbatim>\<open>db.Query\<close> returns an
  error or the rows; the rows give their column labels (or an error), then one
  fetched row for each \<^verbatim>\<open>rows.Next()\<close> that returns true, and at the end
  \<^verbatim>\<open>rows.Err()\<close>. \<^verbatim>\<open>Scan\<close> fills the \<^verbatim>\<open>len(columns)\<close> slots of \<^verbatim>\<open>values\<close> or fails;
  \<^verbatim>\<open>database/sql\<close> keeps one value for each column, so a row of any other length
  cannot arrive, and the model lets \<^verbatim>\<open>Scan\<close> fail on it.
\<close>

datatype 'f fetched = Fetched "'f val list" | ScanFails string

record 'f Rows =
  Columns :: "string + string list"
  Next_rows :: "'f fetched list"
  Err :: "string option"

definition Scan :: "string list \<Rightarrow> 'f fetched \<Rightarrow> string + 'f val list" where
  "Scan columns row =
     (case row of
        ScanFails err \<Rightarrow> Inl err
      | Fetched vals \<Rightarrow>
          if length vals = length columns then Inr vals
          else Inl ''sql: wrong number of destination arguments in Scan'')"

text \<open>The analysis of the column names (lines 47 to 67).\<close>

fun classify ::
  "string list \<Rightarrow> (string \<rightharpoonup> rtype) \<times> (string \<rightharpoonup> FieldInfo list) \<Rightarrow>
   (string \<rightharpoonup> rtype) \<times> (string \<rightharpoonup> FieldInfo list)"
where
  "classify [] (fieldTypes, fieldMap) = (fieldTypes, fieldMap)"
| "classify (col # columns) (fieldTypes, fieldMap) =
     (let parts = Split col in
      if length parts > 1 then
        (let parent = parts ! 0; child = parts ! 1;
             old = (case fieldMap parent of None \<Rightarrow> [] | Some fs \<Rightarrow> fs)
         in classify columns
              (fieldTypes, fieldMap(parent \<mapsto> old @ [\<lparr>Name = child, Type = TString\<rparr>])))
      else classify columns (fieldTypes(col \<mapsto> TString), fieldMap))"

text \<open>The type switch on a value of the first row (lines 89 to 109).\<close>

definition valueType :: "'f runtime \<Rightarrow> 'f val \<Rightarrow> rtype" where
  "valueType rt val =
     (case val of
        VBytes str \<Rightarrow>
          (case Atoi str of
             Some i \<Rightarrow> TInt
           | None \<Rightarrow>
               (case ParseFloat rt str of
                  Some f \<Rightarrow> TFloat64
                | None \<Rightarrow> (case ParseBool str of Some b \<Rightarrow> TBool | None \<Rightarrow> TString)))
      | VNil \<Rightarrow> TString
      | _ \<Rightarrow> TypeOf val)"

text \<open>The first \<^verbatim>\<open>FieldInfo\<close> named \<open>child\<close> receives the type (lines 116 to 121).\<close>

fun set_Type :: "string \<Rightarrow> rtype \<Rightarrow> FieldInfo list \<Rightarrow> FieldInfo list" where
  "set_Type child t [] = []"
| "set_Type child t (field # rest) =
     (if Name field = child then field\<lparr>Type := t\<rparr> # rest else field # set_Type child t rest)"

text \<open>The update of the type information from the first row (lines 84 to 126).\<close>

fun infer ::
  "'f runtime \<Rightarrow> 'f val list \<Rightarrow> nat \<Rightarrow> string list \<Rightarrow>
   (string \<rightharpoonup> rtype) \<times> (string \<rightharpoonup> FieldInfo list) \<Rightarrow>
   (string \<rightharpoonup> rtype) \<times> (string \<rightharpoonup> FieldInfo list)"
where
  "infer rt vals i [] (fieldTypes, fieldMap) = (fieldTypes, fieldMap)"
| "infer rt vals i (col # columns) (fieldTypes, fieldMap) =
     (let val = vals ! i; parts = Split col; t = valueType rt val in
      if length parts > 1 then
        (let parent = parts ! 0; child = parts ! 1 in
         infer rt vals (i + 1) columns
           (fieldTypes,
            (case fieldMap parent of
               None \<Rightarrow> fieldMap
             | Some fs \<Rightarrow> fieldMap(parent \<mapsto> set_Type child t fs))))
      else infer rt vals (i + 1) columns (fieldTypes(col \<mapsto> t), fieldMap))"

text \<open>
  The loop over the remaining rows (lines 137 to 160); \<open>n\<close> counts the calls of
  \<^verbatim>\<open>createStruct\<close>, and \<open>ords n\<close> is the order in which call \<open>n\<close> ranges over the maps.
\<close>

fun remaining_rows ::
  "(nat \<Rightarrow> order) \<Rightarrow> 'f runtime \<Rightarrow> string list \<Rightarrow> (string \<rightharpoonup> rtype) \<Rightarrow>
   (string \<rightharpoonup> FieldInfo list) \<Rightarrow> string option \<Rightarrow> nat \<Rightarrow> 'f fetched list \<Rightarrow>
   'f DBResult list \<Rightarrow> ('f DBResult list \<times> error option) outcome"
where
  "remaining_rows ords rt columns fieldTypes fieldMap rows_err n [] results =
     (case rows_err of
        Some err \<Rightarrow> Return ([], Some (RowsError err))
      | None \<Rightarrow> Return (results, None))"
| "remaining_rows ords rt columns fieldTypes fieldMap rows_err n (row # later) results =
     (case Scan columns row of
        Inl err \<Rightarrow> Return ([], Some (ScanError err))
      | Inr vals \<Rightarrow>
          (case createStruct (ords n) rt columns vals fieldTypes fieldMap of
             Panic p \<Rightarrow> Panic p
           | Return (result, Some err) \<Rightarrow> Return ([], Some err)
           | Return (result, None) \<Rightarrow>
               remaining_rows ords rt columns fieldTypes fieldMap rows_err (n + 1) later
                 (results @ [result])))"

text \<open>
  \<^verbatim>\<open>QueryToStruct\<close>. The argument \<open>queried\<close> is what \<^verbatim>\<open>db.Query(query, args...)\<close>
  returns. A nil slice of results is the empty list.
\<close>

definition QueryToStruct ::
  "(nat \<Rightarrow> order) \<Rightarrow> 'f runtime \<Rightarrow> string + 'f Rows \<Rightarrow>
   ('f DBResult list \<times> error option) outcome"
where
  "QueryToStruct ords rt queried =
     (case queried of
        Inl err \<Rightarrow> Return ([], Some (QueryError err))
      | Inr rows \<Rightarrow>
          (case Columns rows of
             Inl err \<Rightarrow> Return ([], Some (ColumnsError err))
           | Inr columns \<Rightarrow>
               (let (fieldTypes, fieldMap) = classify columns (Map.empty, Map.empty) in
                case Next_rows rows of
                  [] \<Rightarrow>
                    remaining_rows ords rt columns fieldTypes fieldMap (Err rows) 0 [] []
                | row # later \<Rightarrow>
                    (case Scan columns row of
                       Inl err \<Rightarrow> Return ([], Some (ScanError err))
                     | Inr vals \<Rightarrow>
                         (let (fieldTypes, fieldMap) =
                                infer rt vals 0 columns (fieldTypes, fieldMap)
                          in case createStruct (ords 0) rt columns vals fieldTypes fieldMap of
                               Panic p \<Rightarrow> Panic p
                             | Return (result, Some err) \<Rightarrow> Return ([], Some err)
                             | Return (result, None) \<Rightarrow>
                                 remaining_rows ords rt columns fieldTypes fieldMap (Err rows)
                                   1 later [result])))))"

section \<open>Inputs for evaluation\<close>

text \<open>
  A stand-in for \<^verbatim>\<open>float64\<close>, used to evaluate the model on concrete rows: the decimal
  number \<open>m / 10 ^ k\<close>, kept exactly as \<open>(m, k)\<close>. It reads plain decimal literals only
  (an optional sign, digits, an optional fraction); \<^verbatim>\<open>strconv.ParseFloat\<close> reads more
  (exponents, hexadecimal, \<^verbatim>\<open>inf\<close>, \<^verbatim>\<open>nan\<close>) and rounds. It renders every value as
  \<^verbatim>\<open>?\<close>. On the strings of the examples below that are not decimal literals
  (\<^verbatim>\<open>T\<close>, \<^verbatim>\<open>tRUE\<close>, \<^verbatim>\<open>not_a_number\<close>) it fails, as \<^verbatim>\<open>strconv.ParseFloat\<close> does.
\<close>

definition decimal_ParseFloat :: "string \<Rightarrow> (int \<times> nat) option" where
  "decimal_ParseFloat s =
     (let neg = (take 1 s = ''-'');
          body = (if take 1 s = ''-'' \<or> take 1 s = ''+'' then drop 1 s else s);
          ip = takeWhile (\<lambda>c. c \<noteq> CHR ''.'') body;
          fp = drop 1 (dropWhile (\<lambda>c. c \<noteq> CHR ''.'') body)
      in if ip = [] \<and> fp = [] then None
         else (case digits_from 0 (ip @ fp) of
                 None \<Rightarrow> None
               | Some m \<Rightarrow> Some (if neg then - m else m, length fp)))"

definition decimal_runtime :: "(int \<times> nat) runtime" where
  "decimal_runtime =
     \<lparr>ParseFloat = decimal_ParseFloat,
      float64_of_int = (\<lambda>i. (sint i, 0)),
      int_of_float64 = (\<lambda>f. word_of_int (sgn (fst f) * (\<bar>fst f\<bar> div 10 ^ snd f))),
      Sprintf_v = (\<lambda>v. ''?'')\<rparr>"

text \<open>
  A query with the columns \<^verbatim>\<open>id\<close>, \<^verbatim>\<open>title\<close> and \<^verbatim>\<open>active\<close> and one row, as a driver
  delivers it (\<^verbatim>\<open>int64\<close> for the integer columns), and the record made of it.
\<close>

definition product_order :: order where
  "product_order =
     \<lparr>range_fieldMap = [], range_fieldTypes = [''id'', ''title'', ''active''],
      range_parentStructs = []\<rparr>"

definition product_rows :: "(int \<times> nat) Rows" where
  "product_rows =
     \<lparr>Columns = Inr [''id'', ''title'', ''active''],
      Next_rows = [Fetched [VInt64 1, VString ''Product 1'', VInt64 1]],
      Err = None\<rparr>"

definition product :: "(int \<times> nat) DBResult" where
  "product =
     \<lparr>dr_value =
        VStruct [(''Id'', VInt64 1), (''Title'', VString ''Product 1''), (''Active'', VInt64 1)],
      dr_typ = TStruct [(''Id'', TInt64), (''Title'', TString), (''Active'', TInt64)]\<rparr>"

text \<open>
  A query with one column: the order for a flat label (one key in \<^verbatim>\<open>fieldTypes\<close>),
  the order for a nested label (one key in \<^verbatim>\<open>fieldMap\<close>), and the rows.
\<close>

definition flat_order :: "string \<Rightarrow> order" where
  "flat_order col = \<lparr>range_fieldMap = [], range_fieldTypes = [col], range_parentStructs = []\<rparr>"

definition nested_order :: "string \<Rightarrow> order" where
  "nested_order parent =
     \<lparr>range_fieldMap = [parent], range_fieldTypes = [], range_parentStructs = [parent]\<rparr>"

definition single_column :: "string \<Rightarrow> (int \<times> nat) val list list \<Rightarrow> (int \<times> nat) Rows" where
  "single_column label column =
     \<lparr>Columns = Inr [label], Next_rows = map (\<lambda>v. Fetched v) column, Err = None\<rparr>"

text \<open>
  A query with two flat and two nested columns and two rows, and two orders in which
  \<^verbatim>\<open>range\<close> may visit the keys of \<^verbatim>\<open>fieldTypes\<close>.
\<close>

definition catalog_rows :: "(int \<times> nat) Rows" where
  "catalog_rows =
     \<lparr>Columns = Inr [''id'', ''price'', ''category.name'', ''category.id''],
      Next_rows = [Fetched [VInt64 1, VBytes ''99.99'', VString ''Electronics'', VInt64 7],
                   Fetched [VInt64 2, VBytes ''5'', VString ''Books'', VInt64 8]],
      Err = None\<rparr>"

definition catalog_order :: order where
  "catalog_order =
     \<lparr>range_fieldMap = [''category''], range_fieldTypes = [''id'', ''price''],
      range_parentStructs = [''category'']\<rparr>"

definition catalog_order' :: order where
  "catalog_order' =
     \<lparr>range_fieldMap = [''category''], range_fieldTypes = [''price'', ''id''],
      range_parentStructs = [''category'']\<rparr>"

text \<open>A query in which one label occurs twice, as a join of two tables gives it.\<close>

definition codes_rows :: "(int \<times> nat) Rows" where
  "codes_rows =
     \<lparr>Columns = Inr [''code'', ''code''],
      Next_rows = [Fetched [VBytes ''12'', VBytes ''AB''], Fetched [VBytes ''7'', VBytes ''8'']],
      Err = None\<rparr>"

section \<open>Notions used in the statements\<close>

text \<open>
  Two records answer alike: every path gives the same result through each of the five
  accessors.
\<close>

definition same_reads :: "'f runtime \<Rightarrow> 'f DBResult \<Rightarrow> 'f DBResult \<Rightarrow> bool" where
  "same_reads rt a b =
     (\<forall>path. Get a path = Get b path \<and> GetString rt a path = GetString rt b path \<and>
             GetInt rt a path = GetInt rt b path \<and> GetFloat rt a path = GetFloat rt b path \<and>
             GetBool a path = GetBool b path)"

text \<open>
  Two runs of the mapping end alike: both abort, or both return, with the same error
  and with records that answer alike, one by one.
\<close>

definition same_results ::
  "'f runtime \<Rightarrow> ('f DBResult list \<times> error option) outcome \<Rightarrow>
   ('f DBResult list \<times> error option) outcome \<Rightarrow> bool" where
  "same_results rt x y =
     (case x of
        Panic p \<Rightarrow> (case y of Panic q \<Rightarrow> True | Return b \<Rightarrow> False)
      | Return a \<Rightarrow>
          (case y of
             Panic q \<Rightarrow> False
           | Return b \<Rightarrow> snd a = snd b \<and> list_all2 (same_reads rt) (fst a) (fst b)))"

text \<open>
  The orders \<open>ords\<close> are possible for a query: each call of \<^verbatim>\<open>createStruct\<close> ranges over
  every key of the maps made from the column labels once (the inference changes the
  types in the maps, not their keys).
\<close>

definition orders_ok :: "(nat \<Rightarrow> order) \<Rightarrow> string + 'f Rows \<Rightarrow> bool" where
  "orders_ok ords queried =
     (case queried of
        Inl err \<Rightarrow> True
      | Inr rows \<Rightarrow>
          (case Columns rows of
             Inl err \<Rightarrow> True
           | Inr columns \<Rightarrow>
               (\<forall>n. order_ok (ords n) (fst (classify columns (Map.empty, Map.empty)))
                              (snd (classify columns (Map.empty, Map.empty))))))"

text \<open>Two struct values hold the same fields with the same contents, in any order.\<close>

definition same_fields :: "'f val \<Rightarrow> 'f val \<Rightarrow> bool" where
  "same_fields v w =
     (case v of
        VStruct fs \<Rightarrow> (case w of VStruct gs \<Rightarrow> map_of fs = map_of gs | _ \<Rightarrow> False)
      | _ \<Rightarrow> False)"

text \<open>
  The declared type of the field that a column label names in the struct type of a
  record: read like \<^verbatim>\<open>Get\<close> reads the value, through the capitalized parent and child.
\<close>

definition field_type :: "rtype \<Rightarrow> string \<Rightarrow> rtype option" where
  "field_type structType col =
     (case structType of
        TStruct fs \<Rightarrow>
          (let parts = Split col in
           if length parts > 1 then
             (case map_of fs (Title (parts ! 0)) of
                Some (TStruct gs) \<Rightarrow> map_of gs (Title (parts ! 1))
              | _ \<Rightarrow> None)
           else map_of fs (Title col))
      | _ \<Rightarrow> None)"

text \<open>
  The boolean literals in the words of claim C5: \<^verbatim>\<open>true\<close> and \<^verbatim>\<open>false\<close>, in any mix of
  upper and lower case.
\<close>

definition to_lower :: "char \<Rightarrow> char" where
  "to_lower c =
     (case map_of (zip ''ABCDEFGHIJKLMNOPQRSTUVWXYZ'' ''abcdefghijklmnopqrstuvwxyz'') c of
        Some l \<Rightarrow> l
      | None \<Rightarrow> c)"

definition true_false_ignoring_case :: "string \<Rightarrow> bool" where
  "true_false_ignoring_case s = (map to_lower s \<in> set [''true'', ''false''])"

text \<open>
  The field a label stands for: the label itself when it is flat, its parent and child
  when it is nested. Two labels with the same key name the same field.
\<close>

definition field_key :: "string \<Rightarrow> string list" where
  "field_key col = take 2 (Split col)"

text \<open>
  Column \<open>i\<close> decides the type of its field: no later column names the same field.
  Where a label occurs twice, the inference writes the type twice and the later
  value stays.
\<close>

definition decides :: "string list \<Rightarrow> nat \<Rightarrow> bool" where
  "decides cols i =
     (i < length cols \<and> field_key (cols ! i) \<notin> set (map field_key (drop (Suc i) cols)))"

text \<open>
  The type that classification and inference (lines 47 to 126) leave for the field of a
  label, before any struct is built: the entry of \<^verbatim>\<open>fieldTypes\<close> for a flat label, the
  type of the first \<^verbatim>\<open>FieldInfo\<close> of that child under the parent for a nested one
  (the lookup of lines 215 to 228).
\<close>

definition inferred_type :: "'f runtime \<Rightarrow> string list \<Rightarrow> 'f val list \<Rightarrow> string \<Rightarrow> rtype option" where
  "inferred_type rt cols vals col =
     (case infer rt vals 0 cols (classify cols (Map.empty, Map.empty)) of
        (fieldTypes, fieldMap) \<Rightarrow>
          (let parts = Split col in
           if length parts > 1 then
             map_option Type
               (find (\<lambda>field. Name field = parts ! 1)
                  (case fieldMap (parts ! 0) of None \<Rightarrow> [] | Some fs \<Rightarrow> fs))
           else fieldTypes col))"

section \<open>Properties\<close>

lemmas model_defs =
  Title_def isSeparator_def ToTitle_def Atoi_def digit_of_def ParseBool_def
  isValidFieldName_def isLetter_def isDigit_def unexported_start_def StructOf_def Set_field_def
  structFields_of_def convert_def assign_def createStruct_def Scan_def valueType_def
  QueryToStruct_def Get_def GetString_def GetInt_def GetFloat_def GetBool_def
  List.map_filter_def decimal_runtime_def decimal_ParseFloat_def

lemma product_mapped:
  "QueryToStruct (\<lambda>n. product_order) decimal_runtime (Inr product_rows) =
     Return ([product], None)"
  by (simp add: model_defs product_order_def product_rows_def product_def)

subsection \<open>Column labels\<close>

lemma Split_not_Nil: "Split s \<noteq> []"
  by (induction s) (auto split: list.splits)

lemma Split_first_dot:
  "Split s = takeWhile (\<lambda>c. c \<noteq> CHR ''.'') s #
     (if CHR ''.'' \<in> set s then Split (tl (dropWhile (\<lambda>c. c \<noteq> CHR ''.'') s)) else [])"
  by (induction s) (auto split: list.splits)

lemma Split_no_dot: "CHR ''.'' \<notin> set s \<Longrightarrow> Split s = [s]"
  by (subst Split_first_dot) (auto simp: takeWhile_eq_all_conv)

lemma length_Split: "(Suc 0 < length (Split s)) = (CHR ''.'' \<in> set s)"
  by (subst Split_first_dot) (simp add: Split_not_Nil)

lemma Split_parent: "Split s ! 0 = takeWhile (\<lambda>c. c \<noteq> CHR ''.'') s"
  by (subst Split_first_dot) simp

lemma Split_child:
  "CHR ''.'' \<in> set s \<Longrightarrow>
   Split s ! Suc 0 = takeWhile (\<lambda>c. c \<noteq> CHR ''.'') (tl (dropWhile (\<lambda>c. c \<noteq> CHR ''.'') s))"
  by (subst Split_first_dot, simp, subst Split_first_dot, simp)

text \<open>
  Claim C3, as stated: a label with dots is cut at its first dot only, and the child
  is the whole remainder, so that \<^verbatim>\<open>a.b.c\<close> gives the parent \<^verbatim>\<open>a\<close> and the child
  \<^verbatim>\<open>b.c\<close>. The code cuts the label at every dot (\<^verbatim>\<open>strings.Split\<close>) and reads
  \<^verbatim>\<open>parts[0]\<close> and \<^verbatim>\<open>parts[1]\<close>: the child of \<^verbatim>\<open>a.b.c\<close> is \<^verbatim>\<open>b\<close>.
\<close>

theorem C3_child_is_not_the_remainder:
  "snd (classify [''a.b.c''] (Map.empty, Map.empty)) ''a'' =
     Some [\<lparr>Name = ''b'', Type = TString\<rparr>] \<and>
   snd (classify [''a.b.c''] (Map.empty, Map.empty)) ''a'' \<noteq>
     Some [\<lparr>Name = ''b.c'', Type = TString\<rparr>]"
  by simp

text \<open>
  Claim C3, amended: a label without a dot is a flat field; a label with one or more
  dots is a nested field whose parent is the text before the first dot and whose child
  is the text between the first dot and the second (the whole remainder when there is
  no second dot); what follows a second dot is dropped. Here for the classification
  of one label, whatever the maps hold before; the loops of the inference and of
  \<^verbatim>\<open>createStruct\<close> read the same \<^verbatim>\<open>parts[0]\<close> and \<^verbatim>\<open>parts[1]\<close>.
\<close>

theorem C3_split_at_first_and_second_dot:
  "(length (Split col) > 1) = (CHR ''.'' \<in> set col) \<and>
   classify [col] (fieldTypes, fieldMap) =
     (if CHR ''.'' \<in> set col then
        (let parent = takeWhile (\<lambda>c. c \<noteq> CHR ''.'') col;
             child = takeWhile (\<lambda>c. c \<noteq> CHR ''.'')
                       (tl (dropWhile (\<lambda>c. c \<noteq> CHR ''.'') col))
         in (fieldTypes,
             fieldMap(parent \<mapsto> (case fieldMap parent of None \<Rightarrow> [] | Some fs \<Rightarrow> fs) @
                                  [\<lparr>Name = child, Type = TString\<rparr>])))
      else (fieldTypes(col \<mapsto> TString), fieldMap))"
  by (simp add: length_Split Split_parent Split_child Let_def)

subsection \<open>The accessors\<close>

text \<open>
  Whenever \<^verbatim>\<open>Get\<close> returns, the typed getters return as well; on \<^verbatim>\<open>nil\<close> and on a
  value they cannot read as their type they return the zero value.
\<close>

lemma getters_on_absent:
  assumes "Get dr path = Return VNil"
  shows "GetString rt dr path = Return ''''" and "GetInt rt dr path = Return 0"
    and "GetFloat rt dr path = Return (float64_of_int rt 0)" and "GetBool dr path = Return False"
  using assms by (simp_all add: GetString_def GetInt_def GetFloat_def GetBool_def)

lemma getters_on_unreadable:
  shows "Get dr path = Return (VString s) \<Longrightarrow> Atoi s = None \<Longrightarrow> GetInt rt dr path = Return 0"
    and "Get dr path = Return (VString s) \<Longrightarrow> ParseFloat rt s = None \<Longrightarrow>
           GetFloat rt dr path = Return (float64_of_int rt 0)"
    and "Get dr path = Return (VString s) \<Longrightarrow> ParseBool s = None \<Longrightarrow>
           GetBool dr path = Return False"
    and "Get dr path = Return (VBool b) \<Longrightarrow> GetInt rt dr path = Return 0"
    and "Get dr path = Return (VBool b) \<Longrightarrow> GetFloat rt dr path = Return (float64_of_int rt 0)"
    and "Get dr path = Return (VStruct fs) \<Longrightarrow> GetInt rt dr path = Return 0"
    and "Get dr path = Return (VStruct fs) \<Longrightarrow> GetBool dr path = Return False"
  by (simp_all add: GetInt_def GetFloat_def GetBool_def)

text \<open>
  Claim C1. The typed getters answer a path that does not resolve with their zero
  value, and never signal an error. The code does so only while \<^verbatim>\<open>Get\<close> returns
  (\<open>getters_on_absent\<close>, \<open>getters_on_unreadable\<close>). On the record \<open>product\<close>, which the
  mapping returns for \<open>product_rows\<close>, the path \<^verbatim>\<open>title.x\<close> names no field, and each
  of the four getters aborts with the panic of \<^verbatim>\<open>reflect.Value.FieldByName\<close> on the
  string held by \<^verbatim>\<open>Title\<close>, instead of returning its zero value.
\<close>

theorem C1_getters_abort_below_scalar:
  "QueryToStruct (\<lambda>n. product_order) decimal_runtime (Inr product_rows) =
     Return ([product], None) \<and>
   GetString decimal_runtime product ''title.x'' = Panic NotStruct \<and>
   GetInt decimal_runtime product ''title.x'' = Panic NotStruct \<and>
   GetFloat decimal_runtime product ''title.x'' = Panic NotStruct \<and>
   GetBool product ''title.x'' = Panic NotStruct \<and>
   GetString decimal_runtime product ''missing'' = Return [] \<and>
   GetInt decimal_runtime product ''missing'' = Return 0"
  by (simp add: model_defs product_order_def product_rows_def product_def)

text \<open>
  Claim C2. \<^verbatim>\<open>Get\<close> returns \<^verbatim>\<open>nil\<close> whenever a segment does not resolve, also when an
  earlier segment resolved to a scalar, and never aborts. On \<open>product\<close> the path
  \<^verbatim>\<open>title.x\<close> resolves \<^verbatim>\<open>title\<close> to a string; the next \<^verbatim>\<open>FieldByName\<close> is then
  called on a value that is not a struct and panics: \<^verbatim>\<open>Get\<close> does not return. A
  segment that names no field of a struct does give \<^verbatim>\<open>nil\<close>.
\<close>

theorem C2_Get_aborts_below_scalar:
  "QueryToStruct (\<lambda>n. product_order) decimal_runtime (Inr product_rows) =
     Return ([product], None) \<and>
   Get product ''title.x'' = Panic NotStruct \<and>
   Get product ''title'' = Return (VString ''Product 1'') \<and>
   Get product ''missing'' = Return VNil \<and>
   Get product ''missing.x'' = Return VNil"
  by (simp add: model_defs product_order_def product_rows_def product_def)

text \<open>
  Claim C7. \<^verbatim>\<open>GetBool\<close> reads a stored integer of any width as true exactly when it is
  not zero. The type switch of \<^verbatim>\<open>GetBool\<close> has a case for \<^verbatim>\<open>int\<close> only: the column
  \<^verbatim>\<open>active\<close> of \<open>product\<close> holds the \<^verbatim>\<open>int64\<close> 1 and \<^verbatim>\<open>GetBool\<close> answers false,
  while \<^verbatim>\<open>GetInt\<close>, whose switch has the case \<^verbatim>\<open>int64\<close>, answers 1.
\<close>

theorem C7_GetBool_false_on_nonzero_int64:
  "QueryToStruct (\<lambda>n. product_order) decimal_runtime (Inr product_rows) =
     Return ([product], None) \<and>
   Get product ''active'' = Return (VInt64 1) \<and>
   GetBool product ''active'' = Return False \<and>
   GetInt decimal_runtime product ''active'' = Return 1"
  by (simp add: model_defs product_order_def product_rows_def product_def)

subsection \<open>The materializer\<close>

text \<open>
  Claim C4. A byte array in a column inferred numeric or boolean is parsed; when the
  parse fails the raw text is stored and the materialization does not fail. In the
  code a failed parse leaves \<^verbatim>\<open>val\<close> the byte array, and \<^verbatim>\<open>Set\<close> then panics because
  a \<^verbatim>\<open>[]uint8\<close> is not assignable to the \<^verbatim>\<open>int\<close> field. The column \<^verbatim>\<open>stock\<close> is
  inferred \<^verbatim>\<open>int\<close> from the first row; the second row aborts the mapping.
\<close>

theorem C4_failed_parse_aborts:
  "QueryToStruct (\<lambda>n. flat_order ''stock'') decimal_runtime
     (Inr (single_column ''stock'' [[VBytes ''10''], [VBytes ''not_a_number'']])) =
     Panic NotAssignable \<and>
   createStruct (flat_order ''stock'') decimal_runtime [''stock''] [VBytes ''not_a_number'']
     [''stock'' \<mapsto> TInt] Map.empty = Panic NotAssignable \<and>
   convert decimal_runtime [''stock'' \<mapsto> TInt] Map.empty ''stock'' (VBytes ''not_a_number'') =
     Return (VBytes ''not_a_number'')"
  by (simp add: model_defs flat_order_def single_column_def)

text \<open>
  Claim C8. The materializer produces a record for every well-formed row, also for
  rows that hold a null. In the code the value of a null is \<^verbatim>\<open>nil\<close>;
  \<^verbatim>\<open>reflect.ValueOf(nil)\<close> is the zero \<^verbatim>\<open>Value\<close> and \<^verbatim>\<open>Set\<close> panics on it. The type
  switch of the inference does have a case for \<^verbatim>\<open>nil\<close> (the field becomes a string).
\<close>

theorem C8_null_aborts:
  "valueType decimal_runtime VNil = TString \<and>
   createStruct (flat_order ''note'') decimal_runtime [''note''] [VNil]
     [''note'' \<mapsto> TString] Map.empty = Panic SetZeroValue \<and>
   QueryToStruct (\<lambda>n. flat_order ''note'') decimal_runtime
     (Inr (single_column ''note'' [[VNil]])) = Panic SetZeroValue"
  by (simp add: model_defs flat_order_def single_column_def)

subsection \<open>Failures of the data source\<close>

lemma remaining_rows_scan_fails:
  "remaining_rows ords rt cols ft fm None n pre acc = Return (rs, None) \<Longrightarrow>
   remaining_rows ords rt cols ft fm e n (pre @ ScanFails err # post) acc =
     Return ([], Some (ScanError err))"
proof (induction pre arbitrary: n acc)
  case Nil
  then show ?case by (simp add: Scan_def)
next
  case (Cons row pre)
  then show ?case
    by (auto split: sum.splits outcome.splits prod.splits option.splits)
qed

lemma remaining_rows_Err:
  "remaining_rows ords rt cols ft fm None n rows acc = Return (rs, None) \<Longrightarrow>
   remaining_rows ords rt cols ft fm (Some err) n rows acc = Return ([], Some (RowsError err))"
  by (induction rows arbitrary: n acc)
     (auto split: sum.splits outcome.splits prod.splits option.splits)

lemma remaining_rows_error_nil:
  "remaining_rows ords rt cols ft fm e n rows acc = Return (rs, Some err) \<Longrightarrow> rs = []"
  by (induction rows arbitrary: n acc)
     (auto split: sum.splits outcome.splits prod.splits option.splits)

lemma QueryToStruct_scan_fails:
  assumes "QueryToStruct ords rt (Inr \<lparr>Columns = Inr cols, Next_rows = pre, Err = None\<rparr>) =
             Return (rs, None)"
  shows "QueryToStruct ords rt
           (Inr \<lparr>Columns = Inr cols, Next_rows = pre @ ScanFails err # post, Err = e\<rparr>) =
         Return ([], Some (ScanError err))"
proof (cases pre)
  case Nil
  then show ?thesis by (simp add: QueryToStruct_def Scan_def split: prod.splits)
next
  case (Cons row pre')
  with assms show ?thesis
    by (auto simp: QueryToStruct_def
             split: prod.splits sum.splits outcome.splits option.splits
             intro: remaining_rows_scan_fails)
qed

lemma QueryToStruct_Err:
  assumes "QueryToStruct ords rt (Inr \<lparr>Columns = Inr cols, Next_rows = rows, Err = None\<rparr>) =
             Return (rs, None)"
  shows "QueryToStruct ords rt (Inr \<lparr>Columns = Inr cols, Next_rows = rows, Err = Some err\<rparr>) =
         Return ([], Some (RowsError err))"
proof (cases rows)
  case Nil
  then show ?thesis by (simp add: QueryToStruct_def split: prod.splits)
next
  case (Cons row rows')
  with assms show ?thesis
    by (auto simp: QueryToStruct_def
             split: prod.splits sum.splits outcome.splits option.splits
             intro: remaining_rows_Err)
qed

lemma QueryToStruct_error_nil:
  "QueryToStruct ords rt queried = Return (rs, Some err) \<Longrightarrow> rs = []"
  by (auto simp: QueryToStruct_def
           split: prod.splits sum.splits outcome.splits option.splits list.splits
           dest: remaining_rows_error_nil)

text \<open>
  Claim C6. The mapping is all-or-nothing with respect to failures of the source:
  \<^item> when \<^verbatim>\<open>db.Query\<close> fails, and when \<^verbatim>\<open>rows.Columns\<close> fails, it returns the wrapped
    error and no records;
  \<^item> when the rows \<open>pre\<close> have been collected (the mapping over \<open>pre\<close> alone returns
    the records \<open>rs\<close> and no error) and the \<^verbatim>\<open>Scan\<close> of the next row fails, or
    \<^verbatim>\<open>rows.Err\<close> reports an error after them, it returns the wrapped error and no
    records: the records \<open>rs\<close> collected so far are dropped;
  \<^item> whenever it returns an error, the slice of records it returns is nil.
\<close>

theorem C6_source_failure_all_or_nothing:
  "QueryToStruct ords rt (Inl err) = Return ([], Some (QueryError err)) \<and>
   QueryToStruct ords rt (Inr \<lparr>Columns = Inl err, Next_rows = rows, Err = e\<rparr>) =
     Return ([], Some (ColumnsError err)) \<and>
   (QueryToStruct ords rt (Inr \<lparr>Columns = Inr cols, Next_rows = pre, Err = None\<rparr>) =
      Return (rs, None) \<longrightarrow>
      QueryToStruct ords rt
        (Inr \<lparr>Columns = Inr cols, Next_rows = pre @ ScanFails err # post, Err = e\<rparr>) =
        Return ([], Some (ScanError err)) \<and>
      QueryToStruct ords rt (Inr \<lparr>Columns = Inr cols, Next_rows = pre, Err = Some err\<rparr>) =
        Return ([], Some (RowsError err))) \<and>
   (\<forall>rs' err'. QueryToStruct ords rt queried = Return (rs', Some err') \<longrightarrow> rs' = [])"
  using QueryToStruct_scan_fails QueryToStruct_Err QueryToStruct_error_nil
  by (auto simp: QueryToStruct_def)

theorem C6_source_failure_witness:
  "QueryToStruct (\<lambda>n. product_order) decimal_runtime (Inr product_rows) =
     Return ([product], None) \<and>
   QueryToStruct (\<lambda>n. product_order) decimal_runtime
     (Inr \<lparr>Columns = Inr [''id'', ''title'', ''active''],
           Next_rows = [Fetched [VInt64 1, VString ''Product 1'', VInt64 1],
                        ScanFails ''driver: bad connection''],
           Err = None\<rparr>) =
     Return ([], Some (ScanError ''driver: bad connection'')) \<and>
   QueryToStruct (\<lambda>n. product_order) decimal_runtime
     (Inr \<lparr>Columns = Inr [''id'', ''title'', ''active''],
           Next_rows = [Fetched [VInt64 1, VString ''Product 1'', VInt64 1]],
           Err = Some ''driver: bad connection''\<rparr>) =
     Return ([], Some (RowsError ''driver: bad connection''))"
proof -
  let ?pre = "[Fetched [VInt64 1, VString ''Product 1'', VInt64 (1 :: 64 word)]]"
  have collected:
    "QueryToStruct (\<lambda>n. product_order) decimal_runtime
       (Inr \<lparr>Columns = Inr [''id'', ''title'', ''active''], Next_rows = ?pre, Err = None\<rparr>) =
     Return ([product], None)"
    using product_mapped by (simp add: product_rows_def)
  from C6_source_failure_all_or_nothing
         [where ords = "\<lambda>n. product_order" and rt = decimal_runtime
            and cols = "[''id'', ''title'', ''active'']" and pre = ?pre and rs = "[product]"
            and err = "''driver: bad connection''" and post = "[]" and e = None]
  have "QueryToStruct (\<lambda>n. product_order) decimal_runtime
          (Inr \<lparr>Columns = Inr [''id'', ''title'', ''active''],
                Next_rows = ?pre @ [ScanFails ''driver: bad connection''], Err = None\<rparr>) =
          Return ([], Some (ScanError ''driver: bad connection'')) \<and>
        QueryToStruct (\<lambda>n. product_order) decimal_runtime
          (Inr \<lparr>Columns = Inr [''id'', ''title'', ''active''], Next_rows = ?pre,
                Err = Some ''driver: bad connection''\<rparr>) =
          Return ([], Some (RowsError ''driver: bad connection''))"
    using collected by blast
  then show ?thesis using product_mapped by simp
qed

subsection \<open>Labels with an empty parent or child\<close>

lemma Title_Nil: "Title [] = []"
  by (simp add: Title_def)

lemma StructOf_check_NoName:
  "[] \<in> fst ` set fs \<Longrightarrow> StructOf_check seen fs \<noteq> None"
  by (induction fs arbitrary: seen) (auto split: list.splits)

lemma StructOf_empty_name: "[] \<in> fst ` set fs \<Longrightarrow> \<exists>p. StructOf fs = Panic p"
  using StructOf_check_NoName[of fs "[]"] by (auto simp: StructOf_def split: option.splits)

lemma set_Type_Names: "map Name (set_Type child t fs) = map Name fs"
  by (induction fs) auto

lemma classify_keeps:
  "fm p = Some fs \<Longrightarrow> c \<in> Name ` set fs \<Longrightarrow>
   \<exists>fs'. snd (classify cols (ft, fm)) p = Some fs' \<and> c \<in> Name ` set fs'"
proof (induction cols arbitrary: ft fm fs)
  case Nil
  then show ?case by simp
next
  case (Cons col cols)
  show ?case
  proof (cases "Suc 0 < length (Split col)")
    case False
    from Cons.IH[where fm = fm and fs = fs and ft = "ft(col \<mapsto> TString)"] Cons.prems
    obtain fs' where "snd (classify cols (ft(col \<mapsto> TString), fm)) p = Some fs'"
      "c \<in> Name ` set fs'" by blast
    with False show ?thesis by (simp del: fun_upd_apply)
  next
    case True
    let ?fm' = "fm(Split col ! 0 \<mapsto> (case fm (Split col ! 0) of None \<Rightarrow> [] | Some fs \<Rightarrow> fs) @
                    [\<lparr>Name = Split col ! Suc 0, Type = TString\<rparr>])"
    from Cons.prems have "\<exists>fs'. ?fm' p = Some fs' \<and> c \<in> Name ` set fs'"
      by auto
    then obtain fs' where "?fm' p = Some fs'" "c \<in> Name ` set fs'" by blast
    from Cons.IH[where fm = ?fm' and fs = fs' and ft = ft] this
    obtain fs'' where "snd (classify cols (ft, ?fm')) p = Some fs''" "c \<in> Name ` set fs''"
      by blast
    with True show ?thesis by (simp add: Let_def del: fun_upd_apply)
  qed
qed

lemma classify_nested:
  "label \<in> set cols \<Longrightarrow> Suc 0 < length (Split label) \<Longrightarrow>
   \<exists>fs. snd (classify cols (ft, fm)) (Split label ! 0) = Some fs \<and>
        Split label ! Suc 0 \<in> Name ` set fs"
proof (induction cols arbitrary: ft fm)
  case Nil
  then show ?case by simp
next
  case (Cons col cols)
  show ?case
  proof (cases "col = label")
    case True
    let ?fm' = "fm(Split col ! 0 \<mapsto> (case fm (Split col ! 0) of None \<Rightarrow> [] | Some fs \<Rightarrow> fs) @
                    [\<lparr>Name = Split col ! Suc 0, Type = TString\<rparr>])"
    have "\<exists>fs'. ?fm' (Split label ! 0) = Some fs' \<and> Split label ! Suc 0 \<in> Name ` set fs'"
      using True by auto
    then obtain fs' where "?fm' (Split label ! 0) = Some fs'"
      "Split label ! Suc 0 \<in> Name ` set fs'"
      by blast
    from classify_keeps[where fm = ?fm' and fs = fs' and ft = ft and cols = cols] this
    obtain fs'' where "snd (classify cols (ft, ?fm')) (Split label ! 0) = Some fs''"
      "Split label ! Suc 0 \<in> Name ` set fs''" by blast
    with True Cons.prems(2) show ?thesis by (simp add: Let_def del: fun_upd_apply)
  next
    case False
    with Cons.prems have "label \<in> set cols" by simp
    from Cons.IH[OF this Cons.prems(2)] show ?thesis
      by (simp add: Let_def del: fun_upd_apply)
  qed
qed

lemma infer_Names:
  "map_option (map Name) (snd (infer rt vals i cols (ft, fm)) p) = map_option (map Name) (fm p)"
proof (induction cols arbitrary: i ft fm)
  case Nil
  then show ?case by simp
next
  case (Cons col cols)
  show ?case
    by (simp add: Let_def Cons.IH set_Type_Names split: option.splits)
qed

lemma classify_dom_fieldTypes:
  "dom (fst (classify cols (ft, fm))) =
     dom ft \<union> {col \<in> set cols. \<not> Suc 0 < length (Split col)}"
  by (induction cols arbitrary: ft fm) (auto simp: Let_def)

lemma infer_dom_fieldTypes:
  "dom (fst (infer rt vals i cols (ft, fm))) =
     dom ft \<union> {col \<in> set cols. \<not> Suc 0 < length (Split col)}"
  by (induction cols arbitrary: i ft fm) (auto simp: Let_def)

lemma infer_dom_fieldMap: "dom (snd (infer rt vals i cols (ft, fm))) = dom fm"
proof -
  have "\<And>p. (snd (infer rt vals i cols (ft, fm)) p = None) = (fm p = None)"
    using infer_Names[of rt vals i cols ft fm] by (metis option.map_disc_iff)
  then show ?thesis by (auto simp: dom_def)
qed

text \<open>The types inferred from the first row have the keys of the classification.\<close>

lemma infer_order_ok:
  assumes "classify cols (Map.empty, Map.empty) = (ft0, fm0)"
      and "infer rt vals i cols (ft0, fm0) = (ft, fm)"
  shows "order_ok ord ft fm = order_ok ord ft0 fm0"
proof -
  have "dom fm = dom fm0"
    using infer_dom_fieldMap[of rt vals i cols ft0 fm0] assms by simp
  moreover have "dom ft = dom ft0"
    using infer_dom_fieldTypes[of rt vals i cols ft0 fm0]
      classify_dom_fieldTypes[of cols Map.empty Map.empty] assms by auto
  ultimately show ?thesis by (simp add: order_ok_def)
qed

text \<open>
  What the first loop of \<^verbatim>\<open>createStruct\<close> returns, when it returns: the struct type of
  every parent it visited, each accepted by \<^verbatim>\<open>reflect.StructOf\<close>.
\<close>

lemma parentStructs_of_Return:
  "parentStructs_of fm ks ps = Return ps' \<Longrightarrow>
   (\<forall>k. ps' k = (if k \<in> set ks \<and> fm k \<noteq> None
                   then Some (TStruct (map (\<lambda>field. (Title (Name field), Type field)) (the (fm k))))
                   else ps k)) \<and>
   (\<forall>k\<in>set ks. \<forall>fs. fm k = Some fs \<longrightarrow>
      StructOf (map (\<lambda>field. (Title (Name field), Type field)) fs) =
        Return (TStruct (map (\<lambda>field. (Title (Name field), Type field)) fs)))"
proof (induction ks arbitrary: ps)
  case Nil
  then show ?case by simp
next
  case (Cons k ks)
  show ?case
  proof (cases "fm k")
    case None
    with Cons.prems have "parentStructs_of fm ks ps = Return ps'" by simp
    from Cons.IH[OF this] None show ?thesis by auto
  next
    case (Some fs)
    let ?t = "TStruct (map (\<lambda>field. (Title (Name field), Type field)) fs)"
    from Cons.prems Some
    have ok: "StructOf (map (\<lambda>field. (Title (Name field), Type field)) fs) = Return ?t"
      and rest: "parentStructs_of fm ks (ps(k \<mapsto> ?t)) = Return ps'"
      by (auto simp: StructOf_def split: outcome.splits option.splits)
    from Cons.IH[OF rest] Some ok show ?thesis by auto
  qed
qed

lemma createStruct_empty_name:
  assumes fm: "fm parent = Some fs" and c: "child \<in> Name ` set fs"
      and e: "parent = [] \<or> child = []"
      and ok: "order_ok ord ft fm"
  shows "\<exists>p. createStruct ord rt cols vals ft fm = Panic p"
proof (cases "parentStructs_of fm (range_fieldMap ord) Map.empty")
  case (Panic p)
  then show ?thesis by (simp add: createStruct_def)
next
  case (Return ps)
  note R = parentStructs_of_Return[OF Return]
  from ok fm have mem: "parent \<in> set (range_fieldMap ord)" "parent \<in> set (range_parentStructs ord)"
    by (auto simp: order_ok_def)
  let ?nested = "map (\<lambda>field. (Title (Name field), Type field)) fs"
  from R mem fm have nested_ok: "StructOf ?nested = Return (TStruct ?nested)"
    and ps: "ps parent = Some (TStruct ?nested)" by auto
  have child_ok: "child \<noteq> []"
  proof
    assume "child = []"
    with c have "[] \<in> fst ` set ?nested" by (force simp: Title_Nil)
    from StructOf_empty_name[OF this] nested_ok show False by auto
  qed
  with e have "parent = []" by simp
  with ps mem have "([], TStruct ?nested) \<in> set (structFields_of ord ft ps)"
    by (force simp: structFields_of_def List.map_filter_def Title_Nil)
  then have "[] \<in> fst ` set (structFields_of ord ft ps)" by force
  from StructOf_empty_name[OF this] Return show ?thesis
    by (auto simp: createStruct_def)
qed

text \<open>
  Claim C9, as stated: a label with an empty parent (\<^verbatim>\<open>.x\<close>) or an empty child
  (\<^verbatim>\<open>x.\<close>) never makes the mapping fail, and shows only as a failed lookup when
  the record is read. With one row to materialise, the mapping aborts for either
  label: the empty name reaches \<^verbatim>\<open>reflect.StructOf\<close>, which panics on a field
  that has no name, and no record is made.
\<close>

theorem C9_empty_name_aborts_mapping:
  "QueryToStruct (\<lambda>n. nested_order '''') decimal_runtime
     (Inr (single_column ''.x'' [[VString ''v'']])) = Panic NoName \<and>
   QueryToStruct (\<lambda>n. nested_order ''x'') decimal_runtime
     (Inr (single_column ''x.'' [[VString ''v'']])) = Panic NoName"
  by (simp add: model_defs nested_order_def single_column_def)

text \<open>
  Claim C9, amended: labels are not validated. A label with an empty parent or an
  empty child is classified like any dotted label (its child is recorded under its
  parent, empty or not), and with no row to materialise the mapping returns no record
  and no error. With a first row (scanned without error),
  the mapping aborts in the synthesis of the struct type, whatever the other labels
  and the values are, for every order in which the maps are ranged over: the
  malformed field never reaches an accessor.
\<close>

theorem C9_empty_name_aborts_at_first_row:
  "label \<in> set cols \<and> 1 < length (Split label) \<and>
   (Split label ! 0 = [] \<or> Split label ! 1 = []) \<and>
   order_ok (ords 0) (fst (classify cols (Map.empty, Map.empty)))
     (snd (classify cols (Map.empty, Map.empty))) \<and>
   length vals = length cols \<longrightarrow>
   (\<exists>fs. snd (classify cols (Map.empty, Map.empty)) (Split label ! 0) = Some fs \<and>
         Split label ! 1 \<in> Name ` set fs) \<and>
   QueryToStruct ords rt (Inr \<lparr>Columns = Inr cols, Next_rows = [], Err = None\<rparr>) =
     Return ([], None) \<and>
   (\<exists>p. QueryToStruct ords rt
          (Inr \<lparr>Columns = Inr cols, Next_rows = Fetched vals # later, Err = e\<rparr>) = Panic p)"
proof (intro impI conjI; elim conjE)
  assume "label \<in> set cols" and "1 < length (Split label)"
  then show "\<exists>fs. snd (classify cols (Map.empty, Map.empty)) (Split label ! 0) = Some fs \<and>
                  Split label ! 1 \<in> Name ` set fs"
    using classify_nested[of label cols Map.empty Map.empty] by simp
next
  show "QueryToStruct ords rt (Inr \<lparr>Columns = Inr cols, Next_rows = [], Err = None\<rparr>) =
          Return ([], None)"
    by (simp add: QueryToStruct_def split: prod.splits)
next
  assume l: "label \<in> set cols" and n: "1 < length (Split label)"
    and e: "Split label ! 0 = [] \<or> Split label ! 1 = []"
    and ok: "order_ok (ords 0) (fst (classify cols (Map.empty, Map.empty)))
               (snd (classify cols (Map.empty, Map.empty)))"
    and len: "length vals = length cols"
  obtain ft0 fm0 where c0: "classify cols (Map.empty, Map.empty) = (ft0, fm0)" by force
  obtain ft fm where i0: "infer rt vals 0 cols (ft0, fm0) = (ft, fm)" by force
  from classify_nested[OF l, of Map.empty Map.empty] n c0
  obtain fs0 where fs0: "fm0 (Split label ! 0) = Some fs0" "Split label ! Suc 0 \<in> Name ` set fs0"
    by auto
  from infer_Names[of rt vals 0 cols ft0 fm0 "Split label ! 0"] i0 fs0
  obtain fs where fs: "fm (Split label ! 0) = Some fs" "map Name fs = map Name fs0"
    by auto
  from fs(2) fs0(2) have mem: "Split label ! Suc 0 \<in> Name ` set fs"
    by (metis list.set_map)
  from ok c0 have ok': "order_ok (ords 0) ft fm"
    by (simp add: infer_order_ok[OF c0 i0])
  from createStruct_empty_name[OF fs(1) mem _ ok', of rt cols vals] e
  obtain p where "createStruct (ords 0) rt cols vals ft fm = Panic p" by auto
  with c0 i0 len
  show "\<exists>p. QueryToStruct ords rt
              (Inr \<lparr>Columns = Inr cols, Next_rows = Fetched vals # later, Err = e\<rparr>) = Panic p"
    by (simp add: QueryToStruct_def Scan_def)
qed

theorem C9_empty_name_witness:
  "''.x'' \<in> set [''id'', ''.x''] \<and> 1 < length (Split ''.x'') \<and> Split ''.x'' ! 0 = [] \<and>
   order_ok \<lparr>range_fieldMap = [''''], range_fieldTypes = [''id''], range_parentStructs = ['''']\<rparr>
     (fst (classify [''id'', ''.x''] (Map.empty, Map.empty)))
     (snd (classify [''id'', ''.x''] (Map.empty, Map.empty))) \<and>
   snd (classify [''id'', ''.x''] (Map.empty, Map.empty)) [] =
     Some [\<lparr>Name = ''x'', Type = TString\<rparr>] \<and>
   QueryToStruct
     (\<lambda>n. \<lparr>range_fieldMap = [''''], range_fieldTypes = [''id''], range_parentStructs = ['''']\<rparr>)
     decimal_runtime
     (Inr \<lparr>Columns = Inr [''id'', ''.x''], Next_rows = [], Err = None\<rparr>) = Return ([], None) \<and>
   (\<exists>p. QueryToStruct
          (\<lambda>n. \<lparr>range_fieldMap = [''''], range_fieldTypes = [''id''],
                 range_parentStructs = ['''']\<rparr>)
          decimal_runtime
          (Inr \<lparr>Columns = Inr [''id'', ''.x''],
                Next_rows = [Fetched [VInt64 1, VString ''v'']], Err = None\<rparr>) = Panic p)"
proof -
  let ?ord = "\<lparr>range_fieldMap = [''''], range_fieldTypes = [''id''], range_parentStructs = ['''']\<rparr>"
  have hyps:
    "''.x'' \<in> set [''id'', ''.x''] \<and> 1 < length (Split ''.x'') \<and>
     (Split ''.x'' ! 0 = [] \<or> Split ''.x'' ! 1 = []) \<and>
     order_ok ?ord (fst (classify [''id'', ''.x''] (Map.empty, Map.empty)))
       (snd (classify [''id'', ''.x''] (Map.empty, Map.empty))) \<and>
     length [VInt64 1, VString ''v'' :: (int \<times> nat) val] = length [''id'', ''.x'']"
    by (simp add: order_ok_def)
  from C9_empty_name_aborts_at_first_row
         [where label = "''.x''" and cols = "[''id'', ''.x'']" and ords = "\<lambda>n. ?ord"
            and vals = "[VInt64 1, VString ''v'']" and rt = decimal_runtime
            and later = "[]" and e = None]
       hyps
  have "QueryToStruct (\<lambda>n. ?ord) decimal_runtime
          (Inr \<lparr>Columns = Inr [''id'', ''.x''], Next_rows = [], Err = None\<rparr>) = Return ([], None) \<and>
        (\<exists>p. QueryToStruct (\<lambda>n. ?ord) decimal_runtime
               (Inr \<lparr>Columns = Inr [''id'', ''.x''],
                     Next_rows = [Fetched [VInt64 1, VString ''v'']], Err = None\<rparr>) = Panic p)"
    by blast
  moreover have "snd (classify [''id'', ''.x''] (Map.empty, Map.empty)) [] =
                   Some [\<lparr>Name = ''x'', Type = TString\<rparr>]"
    by simp
  ultimately show ?thesis using hyps by simp
qed

subsection \<open>Independence of the order of map iteration\<close>

lemma same_fields_FieldByName:
  "same_fields v w \<Longrightarrow> FieldByName v name = FieldByName w name"
  by (auto simp: same_fields_def split: val.splits)

lemma map_of_store:
  "map_of (map (\<lambda>f. if fst f = name then (name, x) else f) fs) k =
     (if k = name then map_option (\<lambda>_. x) (map_of fs name) else map_of fs k)"
  by (induction fs) auto

lemma same_fields_store:
  "same_fields v w \<Longrightarrow> same_fields (store name x v) (store name x w)"
  by (auto simp: same_fields_def map_of_store fun_eq_iff split: val.splits)

lemma same_fields_assign:
  assumes "same_fields v w"
  shows "(\<exists>p. assign col val v = Panic p \<and> assign col val w = Panic p) \<or>
         (\<exists>v' w'. assign col val v = Return v' \<and> assign col val w = Return w' \<and> same_fields v' w')"
proof -
  note F = same_fields_FieldByName[OF assms]
  note S = same_fields_store[OF assms]
  show ?thesis
    unfolding assign_def Let_def
    by (auto simp: F S assms split: outcome.splits option.splits)
qed

lemma same_fields_place:
  "same_fields v w \<Longrightarrow>
   (\<exists>p. place rt ft fm vals i cols v = Panic p \<and> place rt ft fm vals i cols w = Panic p) \<or>
   (\<exists>v' w'. place rt ft fm vals i cols v = Return v' \<and> place rt ft fm vals i cols w = Return w' \<and>
            same_fields v' w')"
proof (induction cols arbitrary: i v w)
  case Nil
  then show ?case by simp
next
  case (Cons col cols)
  show ?case
  proof (cases "i < length vals")
    case False
    then show ?thesis by simp
  next
    case True
    show ?thesis
    proof (cases "convert rt ft fm col (vals ! i)")
      case (Panic p)
      with True show ?thesis by simp
    next
      case (Return val)
      from same_fields_assign[OF Cons.prems, of col val]
      show ?thesis
      proof
        assume "\<exists>p. assign col val v = Panic p \<and> assign col val w = Panic p"
        with True Return show ?thesis by auto
      next
        assume "\<exists>v' w'. assign col val v = Return v' \<and> assign col val w = Return w' \<and> same_fields v' w'"
        then obtain v' w' where a: "assign col val v = Return v'" "assign col val w = Return w'"
          and s: "same_fields v' w'" by blast
        from Cons.IH[OF s, of "i + 1"] a True Return show ?thesis by simp
      qed
    qed
  qed
qed

lemma same_fields_Get_parts:
  "same_fields v w \<Longrightarrow> parts \<noteq> [] \<Longrightarrow> Get_parts v parts = Get_parts w parts"
  by (cases parts) (auto simp: same_fields_FieldByName)

lemma same_fields_reads:
  assumes "same_fields (dr_value a) (dr_value b)"
  shows "same_reads rt a b"
proof -
  have "Get a path = Get b path" for path
    unfolding Get_def using assms by (rule same_fields_Get_parts) (rule Split_not_Nil)
  then show ?thesis
    by (simp add: same_reads_def GetString_def GetInt_def GetFloat_def GetBool_def)
qed

lemma StructOf_check_None_iff:
  "StructOf_check seen fs = None \<longleftrightarrow>
     (\<forall>f\<in>set fs. StructOf_check [] [f] = None) \<and> distinct (map fst fs) \<and>
     set (map fst fs) \<inter> set seen = {}"
proof (induction fs arbitrary: seen)
  case Nil
  then show ?case by simp
next
  case (Cons f fs)
  show ?case
    by (cases "fst f") (auto simp: Cons.IH split: if_splits)
qed

lemma StructOf_Return_iff:
  "(\<exists>t. StructOf fs = Return t) \<longleftrightarrow>
     (\<forall>f\<in>set fs. StructOf_check [] [f] = None) \<and> distinct (map fst fs)"
proof -
  have "(\<exists>t. StructOf fs = Return t) \<longleftrightarrow> StructOf_check [] fs = None"
    by (simp add: StructOf_def split: option.splits)
  also have "\<dots> \<longleftrightarrow> (\<forall>f\<in>set fs. StructOf_check [] [f] = None) \<and> distinct (map fst fs)"
    using StructOf_check_None_iff[of "[]" fs] by (simp del: StructOf_check.simps)
  finally show ?thesis .
qed

lemma StructOf_Return: "StructOf fs = Return t \<Longrightarrow> t = TStruct fs"
  by (auto simp: StructOf_def split: option.splits)

lemma StructOf_mset:
  assumes "mset fs = mset gs"
  shows "(\<exists>t. StructOf fs = Return t) \<longleftrightarrow> (\<exists>t. StructOf gs = Return t)"
proof -
  from assms have "set fs = set gs" by (rule mset_eq_setD)
  moreover from assms have "mset (map fst fs) = mset (map fst gs)" by simp
  then have "distinct (map fst fs) \<longleftrightarrow> distinct (map fst gs)" by (rule mset_eq_imp_distinct_iff)
  ultimately show ?thesis by (simp add: StructOf_Return_iff)
qed

lemma parentStructs_of_Panic:
  "parentStructs_of fm ks ps = Panic p \<Longrightarrow>
   \<exists>k\<in>set ks. \<exists>fs q. fm k = Some fs \<and>
      StructOf (map (\<lambda>field. (Title (Name field), Type field)) fs) = Panic q"
  by (induction ks arbitrary: ps) (auto split: option.splits outcome.splits)

lemma mset_map_filter:
  "mset xs = mset ys \<Longrightarrow> mset (List.map_filter f xs) = mset (List.map_filter f ys)"
  by (simp add: List.map_filter_def)

lemma structFields_of_mset:
  assumes "order_ok o1 ft fm" "order_ok o2 ft fm"
  shows "mset (structFields_of o1 ft ps) = mset (structFields_of o2 ft ps)"
proof -
  from assms have d: "distinct (range_fieldTypes o1)" "distinct (range_fieldTypes o2)"
      "distinct (range_parentStructs o1)" "distinct (range_parentStructs o2)"
    and e: "set (range_fieldTypes o1) = set (range_fieldTypes o2)"
      "set (range_parentStructs o1) = set (range_parentStructs o2)"
    by (simp_all add: order_ok_def)
  have "mset (range_fieldTypes o1) = mset (range_fieldTypes o2)"
    using e(1) by (rule iffD1[OF set_eq_iff_mset_eq_distinct[OF d(1,2)]])
  then have flat: "mset (List.map_filter f (range_fieldTypes o1)) =
                   mset (List.map_filter f (range_fieldTypes o2))" for f :: "string \<Rightarrow> (string \<times> rtype) option"
    by (rule mset_map_filter)
  have "mset (range_parentStructs o1) = mset (range_parentStructs o2)"
    using e(2) by (rule iffD1[OF set_eq_iff_mset_eq_distinct[OF d(3,4)]])
  then have nested: "mset (List.map_filter f (range_parentStructs o1)) =
                     mset (List.map_filter f (range_parentStructs o2))" for f :: "string \<Rightarrow> (string \<times> rtype) option"
    by (rule mset_map_filter)
  show ?thesis
    unfolding structFields_of_def mset_append flat nested ..
qed

lemma parentStructs_of_order:
  assumes "set ks1 = set ks2"
  shows "(\<exists>p q. parentStructs_of fm ks1 Map.empty = Panic p \<and>
                parentStructs_of fm ks2 Map.empty = Panic q) \<or>
         (\<exists>ps. parentStructs_of fm ks1 Map.empty = Return ps \<and>
               parentStructs_of fm ks2 Map.empty = Return ps)"
proof (cases "parentStructs_of fm ks1 Map.empty")
  case P1: (Panic p)
  show ?thesis
  proof (cases "parentStructs_of fm ks2 Map.empty")
    case (Panic q)
    with P1 show ?thesis by simp
  next
    case (Return ps)
    from parentStructs_of_Panic[OF P1] parentStructs_of_Return[OF Return] assms
    show ?thesis by fastforce
  qed
next
  case R1: (Return ps1)
  show ?thesis
  proof (cases "parentStructs_of fm ks2 Map.empty")
    case (Panic q)
    from parentStructs_of_Panic[OF Panic] parentStructs_of_Return[OF R1] assms
    show ?thesis by fastforce
  next
    case (Return ps2)
    from parentStructs_of_Return[OF R1] parentStructs_of_Return[OF Return] assms
    have "ps1 = ps2" by (auto simp: fun_eq_iff)
    with R1 Return show ?thesis by simp
  qed
qed

lemma Zero_same_fields:
  assumes "mset fs = mset gs" "distinct (map fst fs)"
  shows "same_fields (Zero rt (TStruct fs)) (Zero rt (TStruct gs))"
proof -
  let ?z = "\<lambda>f. (fst f, Zero rt (snd f))"
  from assms have dg: "distinct (map fst gs)"
    using mset_eq_imp_distinct_iff[of "map fst fs" "map fst gs"] by simp
  have "set (map ?z fs) = set (map ?z gs)"
    using mset_eq_setD[OF assms(1)] by simp
  moreover have "distinct (map fst (map ?z fs))" "distinct (map fst (map ?z gs))"
    using assms(2) dg by (simp_all add: comp_def)
  ultimately have "map_of (map ?z fs) = map_of (map ?z gs)"
    by (simp add: map_of_inject_set)
  then show ?thesis by (simp add: same_fields_def)
qed

lemma createStruct_order:
  assumes o1: "order_ok o1 ft fm" and o2: "order_ok o2 ft fm"
  shows "(\<exists>p q. createStruct o1 rt cols vals ft fm = Panic p \<and>
                createStruct o2 rt cols vals ft fm = Panic q) \<or>
         (\<exists>r1 r2. createStruct o1 rt cols vals ft fm = Return (r1, None) \<and>
                  createStruct o2 rt cols vals ft fm = Return (r2, None) \<and> same_reads rt r1 r2)"
proof -
  from o1 o2 have "set (range_fieldMap o1) = set (range_fieldMap o2)"
    by (simp add: order_ok_def)
  from parentStructs_of_order[OF this, of fm]
  show ?thesis
  proof
    assume "\<exists>p q. parentStructs_of fm (range_fieldMap o1) Map.empty = Panic p \<and>
                  parentStructs_of fm (range_fieldMap o2) Map.empty = Panic q"
    then show ?thesis by (auto simp: createStruct_def)
  next
    assume "\<exists>ps. parentStructs_of fm (range_fieldMap o1) Map.empty = Return ps \<and>
                 parentStructs_of fm (range_fieldMap o2) Map.empty = Return ps"
    then obtain ps where ps: "parentStructs_of fm (range_fieldMap o1) Map.empty = Return ps"
      "parentStructs_of fm (range_fieldMap o2) Map.empty = Return ps" by blast
    let ?f1 = "structFields_of o1 ft ps" and ?f2 = "structFields_of o2 ft ps"
    have m: "mset ?f1 = mset ?f2" by (rule structFields_of_mset[OF o1 o2])
    show ?thesis
    proof (cases "StructOf ?f1")
      case P1: (Panic p)
      with StructOf_mset[OF m] obtain q where "StructOf ?f2 = Panic q"
        by (cases "StructOf ?f2") auto
      with P1 ps show ?thesis by (auto simp: createStruct_def)
    next
      case R1: (Return t1)
      with StructOf_mset[OF m] obtain t2 where R2: "StructOf ?f2 = Return t2"
        by (cases "StructOf ?f2") auto
      from R1 R2 have t: "t1 = TStruct ?f1" "t2 = TStruct ?f2"
        by (auto dest: StructOf_Return)
      from R1 have "distinct (map fst ?f1)"
        using StructOf_Return_iff[of ?f1] by auto
      from Zero_same_fields[OF m this, of rt] t
      have z: "same_fields (Zero rt t1) (Zero rt t2)" by simp
      from same_fields_place[OF z, of rt ft fm vals 0 cols]
      show ?thesis
      proof
        assume "\<exists>p. place rt ft fm vals 0 cols (Zero rt t1) = Panic p \<and>
                    place rt ft fm vals 0 cols (Zero rt t2) = Panic p"
        with ps R1 R2 show ?thesis by (auto simp: createStruct_def)
      next
        assume "\<exists>v' w'. place rt ft fm vals 0 cols (Zero rt t1) = Return v' \<and>
                 place rt ft fm vals 0 cols (Zero rt t2) = Return w' \<and> same_fields v' w'"
        then obtain v' w' where pl: "place rt ft fm vals 0 cols (Zero rt t1) = Return v'"
          "place rt ft fm vals 0 cols (Zero rt t2) = Return w'" and sf: "same_fields v' w'"
          by blast
        have "same_reads rt \<lparr>dr_value = v', dr_typ = t1\<rparr> \<lparr>dr_value = w', dr_typ = t2\<rparr>"
          by (rule same_fields_reads) (simp add: sf)
        with ps R1 R2 pl show ?thesis by (auto simp: createStruct_def)
      qed
    qed
  qed
qed

lemma remaining_rows_order:
  assumes "\<And>n. order_ok (ords1 n) ft fm" "\<And>n. order_ok (ords2 n) ft fm"
      and "list_all2 (same_reads rt) acc1 acc2"
  shows "same_results rt (remaining_rows ords1 rt cols ft fm e n rows acc1)
                         (remaining_rows ords2 rt cols ft fm e n rows acc2)"
  using assms(3)
proof (induction rows arbitrary: n acc1 acc2)
  case Nil
  then show ?case by (simp add: same_results_def split: option.splits)
next
  case (Cons row rows)
  show ?case
  proof (cases "Scan cols row")
    case (Inl err)
    then show ?thesis by (simp add: same_results_def)
  next
    case (Inr vals)
    from createStruct_order[OF assms(1)[of n] assms(2)[of n], of rt cols vals]
    show ?thesis
    proof
      assume "\<exists>p q. createStruct (ords1 n) rt cols vals ft fm = Panic p \<and>
                    createStruct (ords2 n) rt cols vals ft fm = Panic q"
      with Inr show ?thesis by (auto simp: same_results_def)
    next
      assume "\<exists>r1 r2. createStruct (ords1 n) rt cols vals ft fm = Return (r1, None) \<and>
               createStruct (ords2 n) rt cols vals ft fm = Return (r2, None) \<and> same_reads rt r1 r2"
      then obtain r1 r2 where c: "createStruct (ords1 n) rt cols vals ft fm = Return (r1, None)"
        "createStruct (ords2 n) rt cols vals ft fm = Return (r2, None)" and r: "same_reads rt r1 r2"
        by blast
      from Cons.prems r have "list_all2 (same_reads rt) (acc1 @ [r1]) (acc2 @ [r2])"
        by (simp add: list_all2_appendI)
      from Cons.IH[OF this, of "n + 1"] c Inr show ?thesis by simp
    qed
  qed
qed

lemma QueryToStruct_no_rows:
  assumes "Columns rows = Inr cols" "classify cols (Map.empty, Map.empty) = (ft0, fm0)"
      and "Next_rows rows = []"
  shows "QueryToStruct ords rt (Inr rows) =
           remaining_rows ords rt cols ft0 fm0 (Err rows) 0 [] []"
  using assms by (simp add: QueryToStruct_def)

lemma QueryToStruct_first_row:
  assumes "Columns rows = Inr cols" "classify cols (Map.empty, Map.empty) = (ft0, fm0)"
      and "Next_rows rows = row # later" "Scan cols row = Inr vals"
      and "infer rt vals 0 cols (ft0, fm0) = (ft, fm)"
  shows "QueryToStruct ords rt (Inr rows) =
           (case createStruct (ords 0) rt cols vals ft fm of
              Panic p \<Rightarrow> Panic p
            | Return (result, Some err) \<Rightarrow> Return ([], Some err)
            | Return (result, None) \<Rightarrow>
                remaining_rows ords rt cols ft fm (Err rows) 1 later [result])"
  using assms by (simp add: QueryToStruct_def)

text \<open>
  Claim C10. Two runs of the mapping over the same columns and the same rows can
  differ in one thing only: the order in which Go ranges over \<^verbatim>\<open>fieldMap\<close>,
  \<^verbatim>\<open>fieldTypes\<close> and \<^verbatim>\<open>parentStructs\<close> in each call of \<^verbatim>\<open>createStruct\<close>, which
  decides the order of the fields of the struct. Whatever orders the two runs meet,
  both abort or both return, with the same error and the same number of records, and
  the records answer every path alike through \<^verbatim>\<open>Get\<close>, \<^verbatim>\<open>GetString\<close>, \<^verbatim>\<open>GetInt\<close>,
  \<^verbatim>\<open>GetFloat\<close> and \<^verbatim>\<open>GetBool\<close>. The accessors only read: a call leaves the record
  as it is (in the model an accessor is a function of the record and the path, and
  returns no new record), so a repeated call gives the same value.
\<close>

theorem C10_reads_do_not_depend_on_map_order:
  "orders_ok ords1 queried \<and> orders_ok ords2 queried \<longrightarrow>
   same_results rt (QueryToStruct ords1 rt queried) (QueryToStruct ords2 rt queried)"
proof (intro impI, elim conjE)
  assume ok1: "orders_ok ords1 queried" and ok2: "orders_ok ords2 queried"
  show "same_results rt (QueryToStruct ords1 rt queried) (QueryToStruct ords2 rt queried)"
  proof (cases queried)
    case (Inl err)
    then show ?thesis by (simp add: QueryToStruct_def same_results_def)
  next
    case (Inr rows)
    show ?thesis
    proof (cases "Columns rows")
      case (Inl err)
      with Inr show ?thesis by (simp add: QueryToStruct_def same_results_def)
    next
      case cols: (Inr cols)
      obtain ft0 fm0 where c0: "classify cols (Map.empty, Map.empty) = (ft0, fm0)" by force
      from ok1 ok2 Inr cols c0
      have k0: "\<And>n. order_ok (ords1 n) ft0 fm0" "\<And>n. order_ok (ords2 n) ft0 fm0"
        by (simp_all add: orders_ok_def)
      show ?thesis
      proof (cases "Next_rows rows")
        case Nil
        have "list_all2 (same_reads rt) [] []" by simp
        from remaining_rows_order[OF k0 this, where cols = cols and e = "Err rows" and n = 0
               and rows = "[]"]
        show ?thesis
          unfolding Inr QueryToStruct_no_rows[OF cols c0 Nil] .
      next
        case (Cons row later)
        show ?thesis
        proof (cases "Scan cols row")
          case (Inl err)
          with Cons Inr cols c0 show ?thesis by (simp add: QueryToStruct_def same_results_def)
        next
          case vals: (Inr vals)
          obtain ft fm where i0: "infer rt vals 0 cols (ft0, fm0) = (ft, fm)" by force
          note Q = QueryToStruct_first_row[OF cols c0 Cons vals i0]
          have k: "\<And>n. order_ok (ords1 n) ft fm" "\<And>n. order_ok (ords2 n) ft fm"
            using k0 by (simp_all add: infer_order_ok[OF c0 i0])
          from createStruct_order[OF k(1)[of 0] k(2)[of 0], of rt cols vals]
          show ?thesis
          proof
            assume "\<exists>p q. createStruct (ords1 0) rt cols vals ft fm = Panic p \<and>
                          createStruct (ords2 0) rt cols vals ft fm = Panic q"
            then show ?thesis unfolding Inr Q
              by (auto simp: same_results_def)
          next
            assume "\<exists>r1 r2. createStruct (ords1 0) rt cols vals ft fm = Return (r1, None) \<and>
                     createStruct (ords2 0) rt cols vals ft fm = Return (r2, None) \<and>
                     same_reads rt r1 r2"
            then obtain r1 r2 where
              c: "createStruct (ords1 0) rt cols vals ft fm = Return (r1, None)"
                 "createStruct (ords2 0) rt cols vals ft fm = Return (r2, None)"
              and r: "same_reads rt r1 r2" by blast
            from r have "list_all2 (same_reads rt) [r1] [r2]" by simp
            from remaining_rows_order[OF k this, where cols = cols and e = "Err rows" and n = 1
                   and rows = later]
            show ?thesis unfolding Inr Q c by simp
          qed
        qed
      qed
    qed
  qed
qed

text \<open>
  The two orders of \<open>catalog_rows\<close> give structs whose fields are in different order,
  and records that answer alike.
\<close>

theorem C10_reads_witness:
  "orders_ok (\<lambda>n. catalog_order) (Inr catalog_rows) \<and>
   orders_ok (\<lambda>n. catalog_order') (Inr catalog_rows) \<and>
   same_results decimal_runtime
     (QueryToStruct (\<lambda>n. catalog_order) decimal_runtime (Inr catalog_rows))
     (QueryToStruct (\<lambda>n. catalog_order') decimal_runtime (Inr catalog_rows)) \<and>
   QueryToStruct (\<lambda>n. catalog_order) decimal_runtime (Inr catalog_rows) \<noteq>
     QueryToStruct (\<lambda>n. catalog_order') decimal_runtime (Inr catalog_rows)"
proof -
  have a: "orders_ok (\<lambda>n. catalog_order) (Inr catalog_rows)"
    by (auto simp: orders_ok_def order_ok_def catalog_rows_def catalog_order_def)
  have b: "orders_ok (\<lambda>n. catalog_order') (Inr catalog_rows)"
    by (auto simp: orders_ok_def order_ok_def catalog_rows_def catalog_order'_def)
  from C10_reads_do_not_depend_on_map_order
         [where ?ords1.0 = "\<lambda>n. catalog_order" and ?ords2.0 = "\<lambda>n. catalog_order'"
            and queried = "Inr catalog_rows" and rt = decimal_runtime] a b
  have c: "same_results decimal_runtime
     (QueryToStruct (\<lambda>n. catalog_order) decimal_runtime (Inr catalog_rows))
     (QueryToStruct (\<lambda>n. catalog_order') decimal_runtime (Inr catalog_rows))" by blast
  have d: "QueryToStruct (\<lambda>n. catalog_order) decimal_runtime (Inr catalog_rows) \<noteq>
     QueryToStruct (\<lambda>n. catalog_order') decimal_runtime (Inr catalog_rows)"
    by (simp add: model_defs catalog_rows_def catalog_order_def catalog_order'_def)
  from a b c d show ?thesis by blast
qed

subsection \<open>Type inference\<close>

lemma field_key_flat: "\<not> Suc 0 < length (Split col) \<Longrightarrow> field_key col = [col]"
  using length_Split[of col] Split_no_dot[of col] by (simp add: field_key_def)

lemma field_key_nested:
  "Suc 0 < length (Split col) \<Longrightarrow> field_key col = [Split col ! 0, Split col ! Suc 0]"
  by (cases "Split col"; cases "tl (Split col)") (auto simp: field_key_def)

lemma infer_flat_other:
  "col \<notin> set cols \<Longrightarrow> fst (infer rt vals i cols (ft, fm)) col = ft col"
  by (induction cols arbitrary: i ft fm) (auto simp: Let_def)

lemma infer_flat:
  "j < length cols \<Longrightarrow> \<not> Suc 0 < length (Split (cols ! j)) \<Longrightarrow>
   field_key (cols ! j) \<notin> field_key ` set (drop (Suc j) cols) \<Longrightarrow>
   fst (infer rt vals i cols (ft, fm)) (cols ! j) = Some (valueType rt (vals ! (i + j)))"
proof (induction cols arbitrary: i j ft fm)
  case Nil
  then show ?case by simp
next
  case (Cons c cs)
  show ?case
  proof (cases j)
    case 0
    with Cons.prems have flat: "\<not> Suc 0 < length (Split c)"
      and last: "field_key c \<notin> field_key ` set cs" by simp_all
    have "c \<notin> set cs"
    proof
      assume "c \<in> set cs"
      then have "field_key c \<in> field_key ` set cs" by (rule imageI)
      with last show False by simp
    qed
    with flat 0 show ?thesis by (simp add: Let_def infer_flat_other)
  next
    case (Suc j')
    with Cons.prems have "j' < length cs" "\<not> Suc 0 < length (Split (cs ! j'))"
      "field_key (cs ! j') \<notin> field_key ` set (drop (Suc j') cs)" by simp_all
    note IH = Cons.IH[OF this, of "Suc i"]
    show ?thesis using Suc IH by (simp add: Let_def)
  qed
qed

lemma set_Type_find_other:
  "c' \<noteq> c \<Longrightarrow> find (\<lambda>f. Name f = c) (set_Type c' t fs) = find (\<lambda>f. Name f = c) fs"
  by (induction fs) auto

lemma set_Type_find_same:
  "c \<in> Name ` set fs \<Longrightarrow>
   find (\<lambda>f. Name f = c) (set_Type c t fs) = Some \<lparr>Name = c, Type = t\<rparr>"
  by (induction fs) auto

lemma set_Type_Name_set: "Name ` set (set_Type child t fs) = Name ` set fs"
  by (metis list.set_map set_Type_Names)

lemma infer_step_nested:
  "Suc 0 < length (Split c) \<Longrightarrow>
   infer rt vals i (c # cs) (ft, fm) =
     infer rt vals (Suc i) cs
       (ft, (case fm (Split c ! 0) of
               None \<Rightarrow> fm
             | Some fs \<Rightarrow> fm(Split c ! 0 \<mapsto> set_Type (Split c ! Suc 0) (valueType rt (vals ! i)) fs)))"
  by (simp add: Let_def)

lemma infer_step_flat:
  "\<not> Suc 0 < length (Split c) \<Longrightarrow>
   infer rt vals i (c # cs) (ft, fm) =
     infer rt vals (Suc i) cs (ft(c \<mapsto> valueType rt (vals ! i)), fm)"
  by (simp add: Let_def)

lemma infer_nested_other:
  "\<forall>col\<in>set cols. field_key col \<noteq> [p, c] \<Longrightarrow>
   map_option (find (\<lambda>f. Name f = c)) (snd (infer rt vals i cols (ft, fm)) p) =
   map_option (find (\<lambda>f. Name f = c)) (fm p)"
proof (induction cols arbitrary: i ft fm)
  case Nil
  then show ?case by simp
next
  case (Cons c0 cs)
  then have rest: "\<forall>col\<in>set cs. field_key col \<noteq> [p, c]" and head: "field_key c0 \<noteq> [p, c]"
    by simp_all
  show ?case
  proof (cases "Suc 0 < length (Split c0)")
    case False
    then show ?thesis
      unfolding infer_step_flat[OF False] by (simp add: Cons.IH[OF rest])
  next
    case True
    from head have ne: "Split c0 ! 0 = p \<Longrightarrow> Split c0 ! Suc 0 \<noteq> c"
      by (simp add: field_key_nested[OF True])
    show ?thesis
      unfolding infer_step_nested[OF True]
      by (auto simp: Cons.IH[OF rest] set_Type_find_other ne split: option.splits)
  qed
qed

lemma infer_nested:
  "j < length cols \<Longrightarrow> Suc 0 < length (Split (cols ! j)) \<Longrightarrow>
   field_key (cols ! j) \<notin> field_key ` set (drop (Suc j) cols) \<Longrightarrow>
   fm (Split (cols ! j) ! 0) = Some fs \<Longrightarrow> Split (cols ! j) ! Suc 0 \<in> Name ` set fs \<Longrightarrow>
   \<exists>fs'. snd (infer rt vals i cols (ft, fm)) (Split (cols ! j) ! 0) = Some fs' \<and>
         find (\<lambda>f. Name f = Split (cols ! j) ! Suc 0) fs' =
           Some \<lparr>Name = Split (cols ! j) ! Suc 0, Type = valueType rt (vals ! (i + j))\<rparr>"
proof (induction cols arbitrary: i j ft fm fs)
  case Nil
  then show ?case by simp
next
  case (Cons c0 cs)
  show ?case
  proof (cases j)
    case 0
    with Cons.prems have nested: "Suc 0 < length (Split c0)"
      and last: "field_key c0 \<notin> field_key ` set cs"
      and fm: "fm (Split c0 ! 0) = Some fs" and mem: "Split c0 ! Suc 0 \<in> Name ` set fs"
      by simp_all
    let ?p = "Split c0 ! 0" and ?c = "Split c0 ! Suc 0"
    let ?fm1 = "fm(?p \<mapsto> set_Type ?c (valueType rt (vals ! i)) fs)"
    have "\<forall>col\<in>set cs. field_key col \<noteq> [?p, ?c]"
    proof
      fix col assume "col \<in> set cs"
      then have "field_key col \<in> field_key ` set cs" by (rule imageI)
      with last have "field_key col \<noteq> field_key c0" by auto
      then show "field_key col \<noteq> [?p, ?c]" by (simp add: field_key_nested[OF nested])
    qed
    from infer_nested_other[OF this, of rt vals "Suc i" ft ?fm1]
    have "map_option (find (\<lambda>f. Name f = ?c)) (snd (infer rt vals (Suc i) cs (ft, ?fm1)) ?p) =
          Some (Some \<lparr>Name = ?c, Type = valueType rt (vals ! i)\<rparr>)"
      by (simp add: set_Type_find_same[OF mem])
    then show ?thesis
      using 0 fm unfolding infer_step_nested[OF nested] by auto
  next
    case (Suc j')
    let ?p = "Split (cs ! j') ! 0" and ?c = "Split (cs ! j') ! Suc 0"
    from Suc Cons.prems have j': "j' < length cs" and nested: "Suc 0 < length (Split (cs ! j'))"
      and d: "field_key (cs ! j') \<notin> field_key ` set (drop (Suc j') cs)"
      and fm: "fm ?p = Some fs" and mem: "?c \<in> Name ` set fs"
      by simp_all
    show ?thesis
    proof (cases "Suc 0 < length (Split c0)")
      case False
      from Cons.IH[where fm = fm and fs = fs and j = j' and i = "Suc i"
             and ft = "ft(c0 \<mapsto> valueType rt (vals ! i))", OF j' nested d fm mem]
      show ?thesis using Suc unfolding infer_step_flat[OF False] by (simp del: fun_upd_apply)
    next
      case True
      let ?fm1 = "(case fm (Split c0 ! 0) of
               None \<Rightarrow> fm
             | Some fs \<Rightarrow> fm(Split c0 ! 0 \<mapsto> set_Type (Split c0 ! Suc 0) (valueType rt (vals ! i)) fs))"
      have "\<exists>fs1. ?fm1 ?p = Some fs1 \<and> ?c \<in> Name ` set fs1"
      proof (cases "Split c0 ! 0 = ?p")
        case True
        with fm mem show ?thesis by (simp add: set_Type_Name_set)
      next
        case False
        with fm mem show ?thesis by (auto split: option.splits)
      qed
      then obtain fs1 where fs1: "?fm1 ?p = Some fs1" "?c \<in> Name ` set fs1" by blast
      from Cons.IH[where fm = ?fm1 and fs = fs1 and j = j' and i = "Suc i" and ft = ft,
             OF j' nested d fs1]
      show ?thesis using Suc unfolding infer_step_nested[OF True] by (simp del: fun_upd_apply)
    qed
  qed
qed

lemma createStruct_typ:
  assumes "createStruct ord rt cols vals ft fm = Return (r, e)"
  shows "\<exists>ps. parentStructs_of fm (range_fieldMap ord) Map.empty = Return ps \<and>
              dr_typ r = TStruct (structFields_of ord ft ps) \<and>
              StructOf (structFields_of ord ft ps) = Return (TStruct (structFields_of ord ft ps))"
proof (cases "parentStructs_of fm (range_fieldMap ord) Map.empty")
  case (Panic p)
  with assms show ?thesis by (simp add: createStruct_def)
next
  case (Return ps)
  show ?thesis
  proof (cases "StructOf (structFields_of ord ft ps)")
    case (Panic p)
    with assms Return show ?thesis by (simp add: createStruct_def)
  next
    case R: (Return t)
    then have t: "t = TStruct (structFields_of ord ft ps)" by (rule StructOf_Return)
    with assms Return R show ?thesis
      by (auto simp: createStruct_def split: outcome.splits)
  qed
qed

lemma createStruct_field_type_flat:
  assumes c: "createStruct ord rt cols vals ft fm = Return (r, e)"
      and ok: "order_ok ord ft fm"
      and t: "ft col = Some t" and flat: "\<not> Suc 0 < length (Split col)"
  shows "field_type (dr_typ r) col = Some t"
proof -
  from createStruct_typ[OF c] obtain ps where
    ty: "dr_typ r = TStruct (structFields_of ord ft ps)" and
    so: "StructOf (structFields_of ord ft ps) = Return (TStruct (structFields_of ord ft ps))"
    by blast
  let ?sf = "structFields_of ord ft ps"
  from so have d: "distinct (map fst ?sf)" using StructOf_Return_iff[of ?sf] by auto
  from ok t have "col \<in> set (range_fieldTypes ord)" by (auto simp: order_ok_def)
  with t have "(Title col, t) \<in> set ?sf"
    by (force simp: structFields_of_def List.map_filter_def)
  with d have "map_of ?sf (Title col) = Some t" by (rule map_of_is_SomeI)
  with ty flat show ?thesis by (simp add: field_type_def)
qed

lemma createStruct_field_type_nested:
  assumes c: "createStruct ord rt cols vals ft fm = Return (r, e)"
      and ok: "order_ok ord ft fm"
      and nested: "Suc 0 < length (Split col)"
      and fs: "fm (Split col ! 0) = Some fs"
      and f: "find (\<lambda>f. Name f = Split col ! Suc 0) fs = Some f"
  shows "field_type (dr_typ r) col = Some (Type f)"
proof -
  from createStruct_typ[OF c] obtain ps where
    ps: "parentStructs_of fm (range_fieldMap ord) Map.empty = Return ps" and
    ty: "dr_typ r = TStruct (structFields_of ord ft ps)" and
    so: "StructOf (structFields_of ord ft ps) = Return (TStruct (structFields_of ord ft ps))"
    by blast
  let ?sf = "structFields_of ord ft ps"
  let ?nested = "map (\<lambda>field. (Title (Name field), Type field)) fs"
  from so have d: "distinct (map fst ?sf)" using StructOf_Return_iff[of ?sf] by auto
  from ok fs have mem: "Split col ! 0 \<in> set (range_fieldMap ord)"
    "Split col ! 0 \<in> set (range_parentStructs ord)" by (auto simp: order_ok_def)
  from parentStructs_of_Return[OF ps] mem fs
  have pst: "ps (Split col ! 0) = Some (TStruct ?nested)"
    and nso: "StructOf ?nested = Return (TStruct ?nested)" by auto
  from pst mem have "(Title (Split col ! 0), TStruct ?nested) \<in> set ?sf"
    by (force simp: structFields_of_def List.map_filter_def)
  with d have outer: "map_of ?sf (Title (Split col ! 0)) = Some (TStruct ?nested)"
    by (rule map_of_is_SomeI)
  from nso have dn: "distinct (map fst ?nested)" using StructOf_Return_iff[of ?nested] by auto
  from f have "f \<in> set fs" "Name f = Split col ! Suc 0"
    by (auto simp: find_Some_iff)
  then have "(Title (Split col ! Suc 0), Type f) \<in> set ?nested" by force
  with dn have "map_of ?nested (Title (Split col ! Suc 0)) = Some (Type f)"
    by (rule map_of_is_SomeI)
  with ty nested outer show ?thesis by (simp add: field_type_def)
qed

lemma remaining_rows_members:
  "remaining_rows ords rt cols ft fm e n rows acc = Return (rs, None) \<Longrightarrow> r \<in> set rs \<Longrightarrow>
   r \<in> set acc \<or> (\<exists>m vals. createStruct (ords m) rt cols vals ft fm = Return (r, None))"
proof (induction rows arbitrary: n acc)
  case Nil
  then show ?case by (simp split: option.splits)
next
  case (Cons row rows)
  show ?case
  proof (cases "Scan cols row")
    case (Inl err)
    with Cons.prems show ?thesis by simp
  next
    case (Inr vals)
    show ?thesis
    proof (cases "createStruct (ords n) rt cols vals ft fm")
      case (Panic p)
      with Cons.prems Inr show ?thesis by simp
    next
      case (Return res)
      obtain r' e' where res: "res = (r', e')" by force
      show ?thesis
      proof (cases e')
        case (Some err)
        with Cons.prems Inr Return res show ?thesis by simp
      next
        case None
        with Cons.prems Inr Return res
        have "remaining_rows ords rt cols ft fm e (n + 1) rows (acc @ [r']) = Return (rs, None)"
          by simp
        from Cons.IH[OF this Cons.prems(2)] Return res None show ?thesis by auto
      qed
    qed
  qed
qed

lemma decided_maps:
  assumes c0: "classify cols (Map.empty, Map.empty) = (ft0, fm0)"
      and i0: "infer rt vals 0 cols (ft0, fm0) = (ft, fm)"
      and d: "decides cols i"
  shows "if Suc 0 < length (Split (cols ! i))
         then \<exists>fs. fm (Split (cols ! i) ! 0) = Some fs \<and>
                find (\<lambda>f. Name f = Split (cols ! i) ! Suc 0) fs =
                  Some \<lparr>Name = Split (cols ! i) ! Suc 0, Type = valueType rt (vals ! i)\<rparr>
         else ft (cols ! i) = Some (valueType rt (vals ! i))"
proof (cases "Suc 0 < length (Split (cols ! i))")
  case False
  from d have i: "i < length cols"
    and last: "field_key (cols ! i) \<notin> field_key ` set (drop (Suc i) cols)"
    by (simp_all add: decides_def)
  from infer_flat[OF i False last, of rt vals 0 ft0 fm0] i0 False
  show ?thesis by simp
next
  case True
  from d have i: "i < length cols"
    and last: "field_key (cols ! i) \<notin> field_key ` set (drop (Suc i) cols)"
    by (simp_all add: decides_def)
  from i have "cols ! i \<in> set cols" by simp
  from classify_nested[OF this True, of Map.empty Map.empty] c0
  obtain fs0 where "fm0 (Split (cols ! i) ! 0) = Some fs0"
    "Split (cols ! i) ! Suc 0 \<in> Name ` set fs0" by auto
  from infer_nested[where fm = fm0 and fs = fs0 and i = 0 and ft = ft0 and rt = rt and vals = vals,
         OF i True last this] i0 True
  show ?thesis by simp
qed

lemma inferred_type_decided:
  assumes "decides cols i"
  shows "inferred_type rt cols vals (cols ! i) = Some (valueType rt (vals ! i))"
proof -
  obtain ft0 fm0 where c0: "classify cols (Map.empty, Map.empty) = (ft0, fm0)" by force
  obtain ft fm where i0: "infer rt vals 0 cols (ft0, fm0) = (ft, fm)" by force
  note m = decided_maps[OF c0 i0 assms]
  show ?thesis
  proof (cases "Suc 0 < length (Split (cols ! i))")
    case False
    with m show ?thesis by (simp add: inferred_type_def c0 i0)
  next
    case True
    with m obtain fs where "fm (Split (cols ! i) ! 0) = Some fs"
      "find (\<lambda>f. Name f = Split (cols ! i) ! Suc 0) fs =
         Some \<lparr>Name = Split (cols ! i) ! Suc 0, Type = valueType rt (vals ! i)\<rparr>" by auto
    with True show ?thesis by (simp add: inferred_type_def c0 i0)
  qed
qed

lemma inferred_field_type:
  assumes c: "createStruct ord rt cols vals' ft fm = Return (r, e)"
      and ok: "order_ok ord ft fm"
      and c0: "classify cols (Map.empty, Map.empty) = (ft0, fm0)"
      and i0: "infer rt vals 0 cols (ft0, fm0) = (ft, fm)"
      and d: "decides cols i"
  shows "field_type (dr_typ r) (cols ! i) = Some (valueType rt (vals ! i))"
proof (cases "Suc 0 < length (Split (cols ! i))")
  case False
  with decided_maps[OF c0 i0 d]
  have "ft (cols ! i) = Some (valueType rt (vals ! i))" by simp
  from createStruct_field_type_flat[OF c ok this False] show ?thesis .
next
  case True
  with decided_maps[OF c0 i0 d]
  obtain fs where "fm (Split (cols ! i) ! 0) = Some fs"
    "find (\<lambda>f. Name f = Split (cols ! i) ! Suc 0) fs =
       Some \<lparr>Name = Split (cols ! i) ! Suc 0, Type = valueType rt (vals ! i)\<rparr>" by auto
  from createStruct_field_type_nested[OF c ok True this] show ?thesis by simp
qed

lemma ParseBool_accepts:
  "(ParseBool s \<noteq> None) =
   (s \<in> set [''1'', ''t'', ''T'', ''TRUE'', ''true'', ''True'',
              ''0'', ''f'', ''F'', ''FALSE'', ''false'', ''False''])"
proof -
  have g: "((if s \<in> A then Some True else if s \<in> B then Some False else None) \<noteq> None) =
           (s \<in> A \<union> B)" for A B
    by auto
  show ?thesis
    unfolding ParseBool_def g by (simp only: set_append[symmetric] append_Cons append_Nil)
qed

lemma valueType_VBytes:
  "valueType rt (VBytes s) =
     (if Atoi s \<noteq> None then TInt
      else if ParseFloat rt s \<noteq> None then TFloat64
      else if s \<in> set [''1'', ''t'', ''T'', ''TRUE'', ''true'', ''True'',
                        ''0'', ''f'', ''F'', ''FALSE'', ''false'', ''False''] then TBool
      else TString)"
proof -
  have "valueType rt (VBytes s) =
     (if Atoi s \<noteq> None then TInt
      else if ParseFloat rt s \<noteq> None then TFloat64
      else if ParseBool s \<noteq> None then TBool
      else TString)"
    by (simp add: valueType_def split: option.splits)
  then show ?thesis by (simp only: ParseBool_accepts)
qed


text \<open>
  Claim C5, as stated: a byte array that is no number is a Boolean exactly when it is
  the literal \<^verbatim>\<open>true\<close> or \<^verbatim>\<open>false\<close> in any case, and every field gets one of the four
  types Integer, Float, Boolean, Text. The code asks \<^verbatim>\<open>strconv.ParseBool\<close>, which takes
  \<^verbatim>\<open>T\<close> (no such literal) and refuses \<^verbatim>\<open>tRUE\<close> (such a literal); and a native value of
  another type, here a \<^verbatim>\<open>time.Time\<close>, gives the field that type.
\<close>

theorem C5_boolean_literals_and_native_types:
  "valueType decimal_runtime (VBytes ''T'') = TBool \<and> \<not> true_false_ignoring_case ''T'' \<and>
   valueType decimal_runtime (VBytes ''tRUE'') = TString \<and> true_false_ignoring_case ''tRUE'' \<and>
   valueType decimal_runtime (VTime 0) = TTime"
  by (simp add: model_defs true_false_ignoring_case_def to_lower_def)

text \<open>
  Claim C5, amended. The type of a value: a null gives \<^verbatim>\<open>string\<close>; a byte array gives
  \<^verbatim>\<open>int\<close> when \<^verbatim>\<open>strconv.Atoi\<close> accepts it, else \<^verbatim>\<open>float64\<close> when
  \<^verbatim>\<open>strconv.ParseFloat\<close> accepts it, else \<^verbatim>\<open>bool\<close> when it is one of the twelve
  spellings \<^verbatim>\<open>strconv.ParseBool\<close> accepts, else \<^verbatim>\<open>string\<close>; any other value gives its own
  dynamic type, whatever it is. The inference runs on the first row only. Where
  several columns name one field (the same flat label, or the same parent and child),
  the last of them decides. For every column \<open>i\<close> that decides its field:
  \<^item> classification and inference leave for that field the type of the value the
    first row holds in column \<open>i\<close>, a null included;
  \<^item> in every record the mapping returns, of the first row and of every later row
    alike, the field is declared with that type.
\<close>

theorem C5_types_fixed_by_first_row:
  "valueType rt VNil = TString \<and>
   valueType rt (VBytes s) =
     (if Atoi s \<noteq> None then TInt
      else if ParseFloat rt s \<noteq> None then TFloat64
      else if s \<in> set [''1'', ''t'', ''T'', ''TRUE'', ''true'', ''True'',
                        ''0'', ''f'', ''F'', ''FALSE'', ''false'', ''False''] then TBool
      else TString) \<and>
   (v \<noteq> VNil \<and> (\<forall>s. v \<noteq> VBytes s) \<longrightarrow> valueType rt v = TypeOf v) \<and>
   (length vals = length cols \<and> decides cols i \<longrightarrow>
      inferred_type rt cols vals (cols ! i) = Some (valueType rt (vals ! i))) \<and>
   (QueryToStruct ords rt
      (Inr \<lparr>Columns = Inr cols, Next_rows = Fetched vals # later, Err = e\<rparr>) = Return (rs, None) \<and>
    orders_ok ords (Inr \<lparr>Columns = Inr cols, Next_rows = Fetched vals # later, Err = e\<rparr>) \<and>
    decides cols i \<longrightarrow>
    (\<forall>r\<in>set rs. field_type (dr_typ r) (cols ! i) = Some (valueType rt (vals ! i))))"
proof (intro conjI impI)
  show "valueType rt VNil = TString" by (simp add: valueType_def)
next
  show "valueType rt (VBytes s) =
     (if Atoi s \<noteq> None then TInt
      else if ParseFloat rt s \<noteq> None then TFloat64
      else if s \<in> set [''1'', ''t'', ''T'', ''TRUE'', ''true'', ''True'',
                        ''0'', ''f'', ''F'', ''FALSE'', ''false'', ''False''] then TBool
      else TString)"
    by (rule valueType_VBytes)
next
  assume "v \<noteq> VNil \<and> (\<forall>s. v \<noteq> VBytes s)"
  then show "valueType rt v = TypeOf v" by (cases v) (simp_all add: valueType_def)
next
  assume "length vals = length cols \<and> decides cols i"
  then show "inferred_type rt cols vals (cols ! i) = Some (valueType rt (vals ! i))"
    by (simp add: inferred_type_decided)
next
  let ?q = "Inr \<lparr>Columns = Inr cols, Next_rows = Fetched vals # later, Err = e\<rparr>"
  assume a: "QueryToStruct ords rt ?q = Return (rs, None) \<and> orders_ok ords ?q \<and>
             decides cols i"
  then have q: "QueryToStruct ords rt ?q = Return (rs, None)" and ok: "orders_ok ords ?q"
    and d: "decides cols i" by simp_all
  obtain ft0 fm0 where c0: "classify cols (Map.empty, Map.empty) = (ft0, fm0)" by force
  obtain ft fm where i0: "infer rt vals 0 cols (ft0, fm0) = (ft, fm)" by force
  from ok c0 have k: "\<And>n. order_ok (ords n) ft fm"
    by (simp add: orders_ok_def infer_order_ok[OF c0 i0])
  have len: "length vals = length cols"
  proof (rule ccontr)
    assume "length vals \<noteq> length cols"
    with q c0 show False by (simp add: QueryToStruct_def Scan_def)
  qed
  then have sc: "Scan cols (Fetched vals) = Inr vals" by (simp add: Scan_def)
  have Q: "QueryToStruct ords rt ?q =
           (case createStruct (ords 0) rt cols vals ft fm of
              Panic p \<Rightarrow> Panic p
            | Return (result, Some err) \<Rightarrow> Return ([], Some err)
            | Return (result, None) \<Rightarrow>
                remaining_rows ords rt cols ft fm e 1 later [result])"
    by (simp add: QueryToStruct_def c0 sc i0 split: outcome.split prod.split option.split)
  from q obtain r0 where first: "createStruct (ords 0) rt cols vals ft fm = Return (r0, None)"
    and rest: "remaining_rows ords rt cols ft fm e 1 later [r0] = Return (rs, None)"
    unfolding Q by (auto split: outcome.splits option.splits prod.splits)
  show "\<forall>r\<in>set rs. field_type (dr_typ r) (cols ! i) = Some (valueType rt (vals ! i))"
  proof
    fix r assume r: "r \<in> set rs"
    from remaining_rows_members[OF rest r] first
    obtain m vals' where "createStruct (ords m) rt cols vals' ft fm = Return (r, None)"
      by auto
    from inferred_field_type[OF this k c0 i0 d]
    show "field_type (dr_typ r) (cols ! i) = Some (valueType rt (vals ! i))" .
  qed
qed

text \<open>
  In the second record of \<open>catalog_rows\<close> the price is the byte array \<^verbatim>\<open>5\<close>, which
  alone would be an \<^verbatim>\<open>int\<close>; the field is a \<^verbatim>\<open>float64\<close>, as the first row's
  \<^verbatim>\<open>99.99\<close> decided. In \<open>codes_rows\<close> the label \<^verbatim>\<open>code\<close> occurs twice: the first row
  holds \<^verbatim>\<open>12\<close> and then \<^verbatim>\<open>AB\<close>, the second column decides, and the field is a
  \<^verbatim>\<open>string\<close> in both records. For the label \<^verbatim>\<open>note\<close>, whose first value is a null,
  the inference leaves \<^verbatim>\<open>string\<close>.
\<close>

theorem C5_types_witness:
  "orders_ok (\<lambda>n. catalog_order) (Inr catalog_rows) \<and>
   decides [''id'', ''price'', ''category.name'', ''category.id''] 1 \<and>
   (\<exists>rs. QueryToStruct (\<lambda>n. catalog_order) decimal_runtime (Inr catalog_rows) = Return (rs, None) \<and>
         length rs = 2 \<and> field_type (dr_typ (rs ! 1)) ''price'' = Some TFloat64) \<and>
   valueType decimal_runtime (VBytes ''99.99'') = TFloat64 \<and>
   valueType decimal_runtime (VBytes ''5'') = TInt \<and>
   orders_ok (\<lambda>n. flat_order ''code'') (Inr codes_rows) \<and>
   decides [''code'', ''code''] 1 \<and> \<not> decides [''code'', ''code''] 0 \<and>
   (\<exists>rs. QueryToStruct (\<lambda>n. flat_order ''code'') decimal_runtime (Inr codes_rows) =
           Return (rs, None) \<and>
         length rs = 2 \<and> field_type (dr_typ (rs ! 0)) ''code'' = Some TString \<and>
         field_type (dr_typ (rs ! 1)) ''code'' = Some TString) \<and>
   valueType decimal_runtime (VBytes ''12'') = TInt \<and>
   valueType decimal_runtime (VBytes ''AB'') = TString \<and>
   decides [''id'', ''note''] 1 \<and>
   inferred_type decimal_runtime [''id'', ''note''] [VInt64 1, VNil] ''note'' = Some TString"
proof -
  let ?cols = "[''id'', ''price'', ''category.name'', ''category.id'']"
  let ?vals = "[VInt64 1, VBytes ''99.99'', VString ''Electronics'', VInt64 (7 :: 64 word)]"
  let ?later = "[Fetched [VInt64 2, VBytes ''5'', VString ''Books'', VInt64 (8 :: 64 word)]]"
  have rows: "catalog_rows = \<lparr>Columns = Inr ?cols, Next_rows = Fetched ?vals # ?later, Err = None\<rparr>"
    by (simp add: catalog_rows_def)
  have ok: "orders_ok (\<lambda>n. catalog_order) (Inr catalog_rows)"
    by (auto simp: orders_ok_def order_ok_def catalog_rows_def catalog_order_def)
  have d: "decides ?cols 1" by (simp add: decides_def field_key_def)
  obtain rs where q: "QueryToStruct (\<lambda>n. catalog_order) decimal_runtime (Inr catalog_rows) =
                        Return (rs, None)" and l: "length rs = 2"
    by (simp add: model_defs catalog_rows_def catalog_order_def)
  have v: "valueType decimal_runtime (VBytes ''99.99'') = TFloat64"
    "valueType decimal_runtime (VBytes ''5'') = TInt"
    "valueType decimal_runtime (VBytes ''12'') = TInt"
    "valueType decimal_runtime (VBytes ''AB'') = TString"
    by (simp_all add: model_defs)
  from C5_types_fixed_by_first_row
         [where rt = decimal_runtime and ords = "\<lambda>n. catalog_order" and cols = ?cols
            and vals = ?vals and later = ?later and e = None and rs = rs and i = 1]
       q ok d rows
  have all: "\<forall>r\<in>set rs. field_type (dr_typ r) (?cols ! 1) =
               Some (valueType decimal_runtime (?vals ! 1))"
    by simp
  from l have "rs ! 1 \<in> set rs" by simp
  with all have "field_type (dr_typ (rs ! 1)) (?cols ! 1) =
                   Some (valueType decimal_runtime (?vals ! 1))" by blast
  then have f: "field_type (dr_typ (rs ! 1)) ''price'' = Some TFloat64"
    by (simp add: v)
  have ex: "\<exists>rs. QueryToStruct (\<lambda>n. catalog_order) decimal_runtime (Inr catalog_rows) =
               Return (rs, None) \<and> length rs = 2 \<and>
             field_type (dr_typ (rs ! 1)) ''price'' = Some TFloat64"
    by (rule exI[of _ rs]) (simp only: q l f simp_thms)
  let ?ccols = "[''code'', ''code'']"
  let ?cvals = "[VBytes ''12'', VBytes ''AB''] :: (int \<times> nat) val list"
  let ?clater = "[Fetched [VBytes ''7'', VBytes ''8'']] :: (int \<times> nat) fetched list"
  have crows: "codes_rows = \<lparr>Columns = Inr ?ccols, Next_rows = Fetched ?cvals # ?clater, Err = None\<rparr>"
    by (simp add: codes_rows_def)
  have cok: "orders_ok (\<lambda>n. flat_order ''code'') (Inr codes_rows)"
    by (auto simp: orders_ok_def order_ok_def codes_rows_def flat_order_def)
  have cd: "decides ?ccols 1" by (simp add: decides_def field_key_def)
  have cn: "\<not> decides ?ccols 0" by (simp add: decides_def field_key_def)
  obtain cs where cq: "QueryToStruct (\<lambda>n. flat_order ''code'') decimal_runtime (Inr codes_rows) =
                         Return (cs, None)" and cl: "length cs = 2"
    by (simp add: model_defs codes_rows_def flat_order_def)
  from C5_types_fixed_by_first_row
         [where rt = decimal_runtime and ords = "\<lambda>n. flat_order ''code''" and cols = ?ccols
            and vals = ?cvals and later = ?clater and e = None and rs = cs and i = 1]
       cq cok cd crows
  have call: "\<forall>r\<in>set cs. field_type (dr_typ r) (?ccols ! 1) =
                Some (valueType decimal_runtime (?cvals ! 1))"
    by simp
  from cl have "cs ! 0 \<in> set cs" "cs ! 1 \<in> set cs" by simp_all
  with call have "field_type (dr_typ (cs ! 0)) (?ccols ! 1) =
                    Some (valueType decimal_runtime (?cvals ! 1))"
    "field_type (dr_typ (cs ! 1)) (?ccols ! 1) =
                    Some (valueType decimal_runtime (?cvals ! 1))" by blast+
  then have cf: "field_type (dr_typ (cs ! 0)) ''code'' = Some TString"
    "field_type (dr_typ (cs ! 1)) ''code'' = Some TString"
    by (simp_all add: v)
  have cex: "\<exists>rs. QueryToStruct (\<lambda>n. flat_order ''code'') decimal_runtime (Inr codes_rows) =
               Return (rs, None) \<and> length rs = 2 \<and>
             field_type (dr_typ (rs ! 0)) ''code'' = Some TString \<and>
             field_type (dr_typ (rs ! 1)) ''code'' = Some TString"
    by (rule exI[of _ cs]) (simp only: cq cl cf simp_thms)
  let ?ncols = "[''id'', ''note'']"
  let ?nvals = "[VInt64 1, VNil] :: (int \<times> nat) val list"
  have nd: "decides ?ncols 1" by (simp add: decides_def field_key_def)
  from C5_types_fixed_by_first_row
         [where rt = decimal_runtime and cols = ?ncols and vals = ?nvals and i = 1] nd
  have "inferred_type decimal_runtime ?ncols ?nvals (?ncols ! 1) =
          Some (valueType decimal_runtime (?nvals ! 1)) \<and>
        valueType decimal_runtime VNil = TString"
    by simp
  then have nf: "inferred_type decimal_runtime ?ncols ?nvals ''note'' = Some TString"
    by simp
  show ?thesis by (intro conjI ok d ex v cok cd cn cex nd nf)
qed

end
